theory Spec2Isabelle
  imports Main "HOL-Library.List_Lexorder"
begin

section \<open>Python strings\<close>

text \<open>
  A Python \<^verbatim>\<open>str\<close> is a sequence of Unicode code points, and slicing, \<^verbatim>\<open>in\<close>,
  \<^verbatim>\<open>replace\<close> and comparison all count code points. A string is therefore a list of
  code points (natural numbers); \<open>ustr\<close> embeds an ASCII literal. The order on strings is
  the lexicographic one, as in Python.
\<close>

type_synonym pystr = "nat list"

definition ustr :: "string \<Rightarrow> pystr" where
  "ustr s = map of_char s"

text \<open>\<^verbatim>\<open>s.startswith(p)\<close>\<close>

fun startswith :: "pystr \<Rightarrow> pystr \<Rightarrow> bool" where
  "startswith s [] = True"
| "startswith [] (p # ps) = False"
| "startswith (c # cs) (p # ps) = (c = p \<and> startswith cs ps)"

text \<open>\<^verbatim>\<open>kw in s\<close>: \<open>kw\<close> occurs in \<open>s\<close> as a contiguous substring.\<close>

fun py_in :: "pystr \<Rightarrow> pystr \<Rightarrow> bool" where
  "py_in kw [] = (kw = [])"
| "py_in kw (c # cs) = (startswith (c # cs) kw \<or> py_in kw cs)"

text \<open>
  \<^verbatim>\<open>s.lower()\<close> as the interpreter computes it. On an ASCII code point the result is
  fixed: \<^verbatim>\<open>A..Z\<close> go to \<^verbatim>\<open>a..z\<close>, every other one stays. On the other code points it
  is read from the Unicode character database, which the model takes as a parameter: the
  full lower-case mapping of a code point (one to three code points; U+0130 gives two),
  and the properties cased and case-ignorable, which decide the one rule that looks at
  the neighbours: a capital sigma (931) becomes a final sigma (962) when a cased letter
  stands before it and none after it, case-ignorable code points skipped, and a small
  sigma (963) otherwise.
\<close>

record unicode_db =
  to_lower_full :: "nat \<Rightarrow> nat list"
  is_cased :: "nat \<Rightarrow> bool"
  is_case_ignorable :: "nat \<Rightarrow> bool"

definition ascii_lower :: "nat \<Rightarrow> nat" where
  "ascii_lower c = (if 65 \<le> c \<and> c \<le> 90 then c + 32 else c)"

definition lower_full :: "unicode_db \<Rightarrow> nat \<Rightarrow> nat list" where
  "lower_full db c = (if c < 128 then [ascii_lower c] else to_lower_full db c)"

text \<open>
  \<open>final_sigma db before after\<close>: the capital sigma between \<open>before\<close> and \<open>after\<close>
  is in the final position.
\<close>

definition final_sigma :: "unicode_db \<Rightarrow> pystr \<Rightarrow> pystr \<Rightarrow> bool" where
  "final_sigma db before after =
     (case dropWhile (is_case_ignorable db) (rev before) of
        [] \<Rightarrow> False
      | c # _ \<Rightarrow>
          is_cased db c \<and>
          (case dropWhile (is_case_ignorable db) after of
             [] \<Rightarrow> True
           | d # _ \<Rightarrow> \<not> is_cased db d))"

text \<open>The loop over the string: \<open>before\<close> is what has been read.\<close>

fun lower_from :: "unicode_db \<Rightarrow> pystr \<Rightarrow> pystr \<Rightarrow> pystr" where
  "lower_from db before [] = []"
| "lower_from db before (c # cs) =
     (if c = 931 then [if final_sigma db before cs then 962 else 963] else lower_full db c)
     @ lower_from db (before @ [c]) cs"

definition py_lower :: "unicode_db \<Rightarrow> pystr \<Rightarrow> pystr" where
  "py_lower db s = lower_from db [] s"

text \<open>
  \<^verbatim>\<open>s.replace(old, new)\<close>: the occurrences of \<open>old\<close> are replaced from left to
  right, without overlap; an empty \<open>old\<close> matches before every character and at the end.
\<close>

function py_replace :: "pystr \<Rightarrow> pystr \<Rightarrow> pystr \<Rightarrow> pystr" where
  "py_replace old new s =
     (if old = [] then new @ concat (map (\<lambda>c. c # new) s)
      else if s = [] then []
      else if startswith s old then new @ py_replace old new (drop (length old) s)
      else hd s # py_replace old new (tl s))"
  by pat_completeness auto
termination
  by (relation "measure (\<lambda>(old, new, s). length s)") auto

declare py_replace.simps [simp del]

section \<open>Configuration and data model\<close>

text \<open>
  An entry of \<^verbatim>\<open>AGENTS_CONFIG\<close>. The \<^verbatim>\<open>use_case\<close> text, which no code reads, is left
  out.
\<close>

record agent_config =
  name :: pystr
  model :: pystr
  priority :: int
  command :: pystr

definition AGENTS_CONFIG :: "pystr \<rightharpoonup> agent_config" where
  "AGENTS_CONFIG k =
     (if k = ustr ''codex'' then
        Some \<lparr>name = ustr ''Codex'', model = ustr ''gpt-5.3-codex'', priority = 90,
              command = ustr ''claude-code''\<rparr>
      else if k = ustr ''claude'' then
        Some \<lparr>name = ustr ''Claude Code'', model = ustr ''claude-opus-4.5'', priority = 80,
              command = ustr ''claude''\<rparr>
      else if k = ustr ''glm'' then
        Some \<lparr>name = ustr ''GLM-5'', model = ustr ''glm-5'', priority = 70,
              command = ustr ''glm''\<rparr>
      else None)"

text \<open>The dataclass \<^verbatim>\<open>Task\<close>; its field \<^verbatim>\<open>id\<close> is \<open>id_task\<close> here.\<close>

record task =
  id_task :: pystr
  description :: pystr
  agent_type :: pystr
  branch :: pystr
  status :: pystr
  started_at :: "pystr option"
  completed_at :: "pystr option"
  error :: "pystr option"
  pr_url :: "pystr option"

section \<open>Agent selection\<close>

text \<open>The three keyword lists of \<^verbatim>\<open>select_agent\<close>, in the order of the source.\<close>

definition frontend_kws :: "pystr list" where
  "frontend_kws =
     [ustr ''frontend'', ustr ''ui'', [30028, 38754], [21069, 31471], ustr ''react'', ustr ''vue'']"

definition backend_kws :: "pystr list" where
  "backend_kws =
     [ustr ''backend'', [21518, 31471], ustr ''api'', ustr ''database'', [25968, 25454, 24211]]"

definition locale_kws :: "pystr list" where
  "locale_kws = [ustr ''cn'', [20013, 25991], ustr ''china'']"

text \<open>\<^verbatim>\<open>any(kw in task_lower for kw in kws)\<close>\<close>

definition any_kw :: "pystr list \<Rightarrow> pystr \<Rightarrow> bool" where
  "any_kw kws task_lower = list_ex (\<lambda>kw. py_in kw task_lower) kws"

definition select_agent :: "unicode_db \<Rightarrow> pystr \<Rightarrow> pystr" where
  "select_agent db task_description =
     (let task_lower = py_lower db task_description in
      if any_kw frontend_kws task_lower then ustr ''claude''
      else if any_kw backend_kws task_lower then ustr ''codex''
      else if any_kw locale_kws task_lower then ustr ''glm''
      else ustr ''codex'')"

section \<open>The orchestrator's state and its environment\<close>

text \<open>
  A path is the list of its components. \<open>path_join p c\<close> is \<^verbatim>\<open>p / c\<close> of
  \<^verbatim>\<open>pathlib\<close> for a component \<open>c\<close> without a separator: an empty component and
  \<^verbatim>\<open>.\<close> are dropped.
\<close>

type_synonym path = "pystr list"

definition path_join :: "path \<Rightarrow> pystr \<Rightarrow> path" where
  "path_join p c = (if c = [] \<or> c = ustr ''.'' then p else p @ [c])"

text \<open>A \<^verbatim>\<open>subprocess.Popen\<close> handle.\<close>

record proc =
  pid :: nat

text \<open>
  What the orchestrator asks of the operating system: the commands it runs, the prompt
  file it writes, the agent it spawns and the signal it sends. The state keeps them in
  the order of the calls, so that a theorem can say which calls an operation made.
\<close>

datatype extcall =
    Git_worktree_add path pystr
  | Npm_install path
  | Mvn_compile path
  | Pip_install path
  | Go_mod_download path
  | Write_prompt pystr
  | Popen path pystr
  | Killpg nat

text \<open>
  The state: \<^verbatim>\<open>self.workspace\<close>, \<^verbatim>\<open>self.tasks\<close>, the module's table
  \<^verbatim>\<open>RUNNING_AGENTS\<close>, and the content of \<^verbatim>\<open>tasks.json\<close> (\<open>None\<close> while the file
  does not exist, otherwise the mapping last written).
\<close>

record orchestrator =
  workspace :: path
  tasks :: "pystr \<rightharpoonup> task"
  RUNNING_AGENTS :: "pystr \<rightharpoonup> proc"
  tasks_file :: "(pystr \<rightharpoonup> task) option"
  calls :: "extcall list"

text \<open>
  An exception is a \<^verbatim>\<open>KeyError\<close> of the code's own dictionary lookups, or one raised
  by a call into the system (\<^verbatim>\<open>subprocess.run\<close>, \<^verbatim>\<open>write_text\<close>, \<^verbatim>\<open>chmod\<close>,
  \<^verbatim>\<open>open\<close>, \<^verbatim>\<open>Popen\<close>, \<^verbatim>\<open>os.killpg\<close>), given by its \<^verbatim>\<open>str()\<close> text.
\<close>

datatype exn = KeyError pystr | External pystr

datatype 'a outcome = Raises exn | Returns 'a

text \<open>
  \<^verbatim>\<open>_save_tasks\<close> writes the whole mapping. Writing the record file and printing are
  taken to succeed.
\<close>

definition save_tasks :: "orchestrator \<Rightarrow> orchestrator" where
  "save_tasks s = s\<lparr>tasks_file := Some (tasks s)\<rparr>"

definition record_call :: "extcall \<Rightarrow> orchestrator \<Rightarrow> orchestrator" where
  "record_call c s = s\<lparr>calls := calls s @ [c]\<rparr>"

section \<open>Creating a task\<close>

text \<open>
  \<open>uuid_hex\<close> is \<^verbatim>\<open>uuid.uuid4().hex\<close>. \<^verbatim>\<open>not branch\<close> holds for \<^verbatim>\<open>None\<close> and for
  the empty string. \<open>db\<close> is the character database behind \<^verbatim>\<open>lower()\<close>.
\<close>

definition derive_branch :: "unicode_db \<Rightarrow> pystr \<Rightarrow> pystr" where
  "derive_branch db descr =
     (let branch_name = py_lower db (py_replace (ustr '' '') (ustr ''-'') (take 30 descr))
      in ustr ''feat/'' @ branch_name)"

definition create_task ::
  "unicode_db \<Rightarrow> pystr \<Rightarrow> pystr \<Rightarrow> pystr option \<Rightarrow> orchestrator \<Rightarrow> task \<times> orchestrator"
  where
  "create_task db uuid_hex descr branch_arg s =
     (let task_id = ustr ''task-'' @ take 8 uuid_hex;
          branch' = (case branch_arg of
                       None \<Rightarrow> derive_branch db descr
                     | Some b \<Rightarrow> if b = [] then derive_branch db descr else b);
          agent = select_agent db descr;
          t = \<lparr>id_task = task_id, description = descr, agent_type = agent,
               branch = branch', status = ustr ''pending'', started_at = None,
               completed_at = None, error = None, pr_url = None\<rparr>
      in (t, save_tasks (s\<lparr>tasks := (tasks s)(task_id \<mapsto> t)\<rparr>)))"

section \<open>Starting a task\<close>

text \<open>
  What the system answers during one \<^verbatim>\<open>start_task\<close>: whether the worktree directory
  exists, what \<^verbatim>\<open>git worktree add\<close> does (raise, or a return code), which manifest
  files the worktree holds, what the installer's \<^verbatim>\<open>subprocess.run\<close> and the writing of
  the prompt do, what launching does (writing the script, \<^verbatim>\<open>chmod\<close>, opening the log
  and \<^verbatim>\<open>Popen\<close>: raise, or the handle), the clock's \<^verbatim>\<open>datetime.now().isoformat()\<close>,
  and Python's \<^verbatim>\<open>repr\<close> of a string (the text of a \<^verbatim>\<open>KeyError\<close>).
\<close>

record start_env =
  wt_exists :: bool
  git_add :: "int outcome"
  has_package_json :: bool
  has_pom_xml :: bool
  has_requirements_txt :: bool
  has_go_mod :: bool
  deps_run :: "unit outcome"
  prompt_write :: "unit outcome"
  popen :: "proc outcome"
  now :: pystr
  repr :: "pystr \<Rightarrow> pystr"

definition str_exn :: "(pystr \<Rightarrow> pystr) \<Rightarrow> exn \<Rightarrow> pystr" where
  "str_exn rp e = (case e of KeyError k \<Rightarrow> rp k | External m \<Rightarrow> m)"

text \<open>
  \<^verbatim>\<open>self.workspace / ".agent-cluster" / "worktrees" / task.branch.replace("/", "_")\<close>:
  the last component has no separator left.
\<close>

definition worktree_path_of :: "path \<Rightarrow> pystr \<Rightarrow> path" where
  "worktree_path_of ws br =
     path_join (ws @ [ustr ''.agent-cluster'', ustr ''worktrees''])
       (py_replace (ustr ''/'') (ustr ''_'') br)"

text \<open>
  Step 1 of the \<^verbatim>\<open>try\<close> block: the worktree. A return code other than 0 only prints a
  warning.
\<close>

definition ensure_worktree :: "start_env \<Rightarrow> task \<Rightarrow> orchestrator \<Rightarrow> orchestrator \<times> path outcome" where
  "ensure_worktree env t s =
     (let worktree_path = worktree_path_of (workspace s) (branch t) in
      if \<not> wt_exists env then
        (let s1 = record_call (Git_worktree_add worktree_path (branch t)) s in
         case git_add env of
           Raises e \<Rightarrow> (s1, Raises e)
         | Returns returncode \<Rightarrow> (s1, Returns worktree_path))
      else (s, Returns worktree_path))"

text \<open>\<^verbatim>\<open>_install_deps\<close>: the first manifest found decides the command.\<close>

definition install_deps :: "start_env \<Rightarrow> path \<Rightarrow> orchestrator \<Rightarrow> orchestrator \<times> unit outcome" where
  "install_deps env worktree_path s =
     (if has_package_json env then (record_call (Npm_install worktree_path) s, deps_run env)
      else if has_pom_xml env then (record_call (Mvn_compile worktree_path) s, deps_run env)
      else if has_requirements_txt env then
        (record_call (Pip_install worktree_path) s, deps_run env)
      else if has_go_mod env then (record_call (Go_mod_download worktree_path) s, deps_run env)
      else (s, Returns ()))"

text \<open>
  \<^verbatim>\<open>_start_agent\<close>: the lookup in \<^verbatim>\<open>AGENTS_CONFIG\<close> comes first; the handle is
  registered under the record's own \<^verbatim>\<open>task.id\<close>.
\<close>

definition start_agent ::
  "start_env \<Rightarrow> task \<Rightarrow> path \<Rightarrow> orchestrator \<Rightarrow> orchestrator \<times> nat outcome" where
  "start_agent env t worktree_path s =
     (case AGENTS_CONFIG (agent_type t) of
        None \<Rightarrow> (s, Raises (KeyError (agent_type t)))
      | Some agent_config \<Rightarrow>
          (let s1 = record_call (Popen worktree_path (id_task t)) s in
           case popen env of
             Raises e \<Rightarrow> (s1, Raises e)
           | Returns p \<Rightarrow>
               (s1\<lparr>RUNNING_AGENTS := (RUNNING_AGENTS s1)(id_task t \<mapsto> p)\<rparr>, Returns (pid p))))"

text \<open>
  The \<^verbatim>\<open>try\<close> block of \<^verbatim>\<open>start_task\<close>, up to the launch: the state reached, and the
  process id or the exception that ended the block.
\<close>

definition start_steps ::
  "start_env \<Rightarrow> pystr \<Rightarrow> task \<Rightarrow> orchestrator \<Rightarrow> orchestrator \<times> nat outcome" where
  "start_steps env task_id t s =
     (case ensure_worktree env t s of
        (s1, Raises e) \<Rightarrow> (s1, Raises e)
      | (s1, Returns worktree_path) \<Rightarrow>
          (case install_deps env worktree_path s1 of
             (s2, Raises e) \<Rightarrow> (s2, Raises e)
           | (s2, Returns u) \<Rightarrow>
               (let s3 = record_call (Write_prompt task_id) s2 in
                case prompt_write env of
                  Raises e \<Rightarrow> (s3, Raises e)
                | Returns u' \<Rightarrow> start_agent env t worktree_path s3)))"

text \<open>
  \<^verbatim>\<open>start_task\<close>. \<^verbatim>\<open>task\<close> is the object stored in \<^verbatim>\<open>self.tasks\<close>, so assigning
  its fields changes the stored record.
\<close>

definition start_task :: "start_env \<Rightarrow> pystr \<Rightarrow> orchestrator \<Rightarrow> bool \<times> orchestrator" where
  "start_task env task_id s =
     (case tasks s task_id of
        None \<Rightarrow> (False, s)
      | Some t \<Rightarrow>
          (case start_steps env task_id t s of
             (s1, Returns p) \<Rightarrow>
               (True,
                save_tasks (s1\<lparr>tasks := (tasks s1)(task_id \<mapsto>
                   t\<lparr>status := ustr ''running'', started_at := Some (now env)\<rparr>)\<rparr>))
           | (s1, Raises e) \<Rightarrow>
               (False,
                save_tasks (s1\<lparr>tasks := (tasks s1)(task_id \<mapsto>
                   t\<lparr>status := ustr ''failed'', error := Some (str_exn (repr env) e)\<rparr>)\<rparr>))))"

section \<open>Status, stop and delete\<close>

text \<open>
  What the system answers during one \<^verbatim>\<open>check_task_status\<close>: \<^verbatim>\<open>proc.poll()\<close>
  (\<open>None\<close> while the process runs, its return code once it has exited) and the clock.
\<close>

record status_env =
  poll :: "int option"
  now_status :: pystr

text \<open>The dictionary \<^verbatim>\<open>check_task_status\<close> returns for a task.\<close>

record task_view =
  view_id :: pystr
  view_description :: pystr
  view_agent :: pystr
  view_agent_name :: pystr
  view_branch :: pystr
  view_status :: pystr
  view_started_at :: "pystr option"
  view_completed_at :: "pystr option"
  view_error :: "pystr option"
  view_pr_url :: "pystr option"

datatype reply = Error_reply pystr | View_reply task_view

text \<open>
  The reconciliation of \<^verbatim>\<open>check_task_status\<close>, for the stored record \<open>t\<close>: the
  record as it is afterwards, and the state.
\<close>

definition reconcile ::
  "status_env \<Rightarrow> pystr \<Rightarrow> task \<Rightarrow> orchestrator \<Rightarrow> task \<times> orchestrator" where
  "reconcile env task_id t s =
     (if status t = ustr ''running'' then
        (case RUNNING_AGENTS s task_id of
           None \<Rightarrow> (t, s)
         | Some p \<Rightarrow>
             (case poll env of
                None \<Rightarrow> (t, s)
              | Some returncode \<Rightarrow>
                  (let t1 = t\<lparr>status := ustr ''completed'',
                              completed_at := Some (now_status env)\<rparr>
                   in (t1, save_tasks (s\<lparr>tasks := (tasks s)(task_id \<mapsto> t1),
                         RUNNING_AGENTS := (RUNNING_AGENTS s)(task_id := None)\<rparr>)))))
      else (t, s))"

definition view_of :: "task \<Rightarrow> agent_config \<Rightarrow> task_view" where
  "view_of t cfg =
     \<lparr>view_id = id_task t, view_description = description t, view_agent = agent_type t,
      view_agent_name = name cfg, view_branch = branch t, view_status = status t,
      view_started_at = started_at t, view_completed_at = completed_at t,
      view_error = error t, view_pr_url = pr_url t\<rparr>"

definition check_task_status ::
  "status_env \<Rightarrow> pystr \<Rightarrow> orchestrator \<Rightarrow> reply outcome \<times> orchestrator" where
  "check_task_status env task_id s =
     (case tasks s task_id of
        None \<Rightarrow> (Returns (Error_reply (ustr ''Task not found'')), s)
      | Some t \<Rightarrow>
          (case reconcile env task_id t s of
             (t1, s1) \<Rightarrow>
               (case AGENTS_CONFIG (agent_type t1) of
                  None \<Rightarrow> (Raises (KeyError (agent_type t1)), s1)
                | Some cfg \<Rightarrow> (Returns (View_reply (view_of t1 cfg)), s1))))"

text \<open>
  \<^verbatim>\<open>stop_task\<close>: \<open>kill\<close> is what \<^verbatim>\<open>os.killpg(os.getpgid(proc.pid), SIGTERM)\<close> does.
  The bare \<^verbatim>\<open>except\<close> turns its exception into \<^verbatim>\<open>False\<close>, before anything is
  changed.
\<close>

definition stop_task :: "unit outcome \<Rightarrow> pystr \<Rightarrow> orchestrator \<Rightarrow> bool \<times> orchestrator" where
  "stop_task kill task_id s =
     (case tasks s task_id of
        None \<Rightarrow> (False, s)
      | Some t \<Rightarrow>
          (case RUNNING_AGENTS s task_id of
             None \<Rightarrow> (False, s)
           | Some p \<Rightarrow>
               (let s1 = record_call (Killpg (pid p)) s in
                case kill of
                  Raises e \<Rightarrow> (False, s1)
                | Returns u \<Rightarrow>
                    (True,
                     save_tasks (s1\<lparr>tasks := (tasks s1)(task_id \<mapsto>
                                    t\<lparr>status := ustr ''failed'',
                                      error := Some (ustr ''Stopped by user'')\<rparr>),
                                  RUNNING_AGENTS := (RUNNING_AGENTS s1)(task_id := None)\<rparr>)))))"

definition delete_task :: "unit outcome \<Rightarrow> pystr \<Rightarrow> orchestrator \<Rightarrow> bool \<times> orchestrator" where
  "delete_task kill task_id s =
     (if task_id \<in> dom (tasks s) then
        (let s1 = snd (stop_task kill task_id s) in
         (True, save_tasks (s1\<lparr>tasks := (tasks s1)(task_id := None)\<rparr>)))
      else (False, s))"

section \<open>Sequences of operations\<close>

text \<open>One call of the command surface, with what the system answers during it.\<close>

datatype op =
    Create pystr pystr "pystr option"
  | Start start_env pystr
  | Status status_env pystr
  | Stop "unit outcome" pystr
  | Delete "unit outcome" pystr

fun step :: "unicode_db \<Rightarrow> op \<Rightarrow> orchestrator \<Rightarrow> orchestrator" where
  "step db (Create uuid_hex descr branch_arg) s =
     snd (create_task db uuid_hex descr branch_arg s)"
| "step db (Start env task_id) s = snd (start_task env task_id s)"
| "step db (Status env task_id) s = snd (check_task_status env task_id s)"
| "step db (Stop kill task_id) s = snd (stop_task kill task_id s)"
| "step db (Delete kill task_id) s = snd (delete_task kill task_id s)"

fun run :: "unicode_db \<Rightarrow> op list \<Rightarrow> orchestrator \<Rightarrow> orchestrator" where
  "run db [] s = s"
| "run db (x # xs) s = run db xs (step db x s)"

text \<open>The task has reached completed or failed.\<close>

definition finished :: "pystr \<Rightarrow> orchestrator \<Rightarrow> bool" where
  "finished task_id s =
     (case tasks s task_id of
        None \<Rightarrow> False
      | Some t \<Rightarrow> status t = ustr ''completed'' \<or> status t = ustr ''failed'')"

text \<open>
  \<open>restarts task_id x s\<close>: in the state \<open>s\<close> the call \<open>x\<close> starts the task
  \<open>task_id\<close> although it is completed or failed, or creates a record under its
  identifier.
\<close>

fun restarts :: "pystr \<Rightarrow> op \<Rightarrow> orchestrator \<Rightarrow> bool" where
  "restarts task_id (Create uuid_hex descr branch_arg) s =
     (ustr ''task-'' @ take 8 uuid_hex = task_id)"
| "restarts task_id (Start env k) s = (k = task_id \<and> finished task_id s)"
| "restarts task_id (Status env k) s = False"
| "restarts task_id (Stop kill k) s = False"
| "restarts task_id (Delete kill k) s = False"

text \<open>No call of the sequence, run from \<open>s\<close>, restarts the task.\<close>

fun no_restart :: "unicode_db \<Rightarrow> pystr \<Rightarrow> op list \<Rightarrow> orchestrator \<Rightarrow> bool" where
  "no_restart db task_id [] s = True"
| "no_restart db task_id (x # xs) s =
     (\<not> restarts task_id x s \<and> no_restart db task_id xs (step db x s))"

text \<open>
  How far a status is along pending, running, completed or failed (any other string
  counts as pending).
\<close>

definition rank :: "pystr \<Rightarrow> nat" where
  "rank st =
     (if st = ustr ''completed'' \<or> st = ustr ''failed'' then 2
      else if st = ustr ''running'' then 1 else 0)"

section \<open>The invariant of the live-process table\<close>



section \<open>The branch name in the specification's words\<close>

text \<open>
  \<^verbatim>\<open>feat/\<close>, then the first 30 characters of the description, each space (32) replaced
  by a hyphen (45), and the result in lower case.
\<close>

definition spec_branch :: "unicode_db \<Rightarrow> pystr \<Rightarrow> pystr" where
  "spec_branch db descr =
     ustr ''feat/'' @ py_lower db (map (\<lambda>c. if c = 32 then 45 else c) (take 30 descr))"

section \<open>A concrete run\<close>

text \<open>
  A fresh orchestrator, one task created from the description of the specification's
  end-to-end scenario, and the answers of the system used below: a start that succeeds,
  a start whose prompt cannot be written, and the clock of a night in which local time
  is set back by one hour.
\<close>

text \<open>
  An excerpt of the Unicode character database, enough for the strings used below: the
  lower case of E acute (201), of I with dot above (304, two code points) and of the
  Kelvin sign (8490); the cased letters among the code points used; the case-ignorable
  apostrophe, full stop, colon, circumflex, grave accent and combining dot above.
\<close>

definition db0 :: unicode_db where
  "db0 = \<lparr>to_lower_full =
            (\<lambda>c. if c = 201 then [233] else if c = 304 then [105, 775]
                 else if c = 8490 then [107] else [c]),
          is_cased =
            (\<lambda>c. 65 \<le> c \<and> c \<le> 90 \<or> 97 \<le> c \<and> c \<le> 122
                 \<or> c \<in> {201, 233, 304, 8490, 931, 962, 963}),
          is_case_ignorable = (\<lambda>c. c \<in> {39, 46, 58, 94, 96, 775})\<rparr>"

definition fresh :: orchestrator where
  "fresh = \<lparr>workspace = [ustr ''workspace'', ustr ''agent''], tasks = Map.empty,
         RUNNING_AGENTS = Map.empty, tasks_file = None, calls = []\<rparr>"

definition uuid0 :: pystr where
  "uuid0 = ustr ''0a1b2c3d4e5f60718293a4b5c6d7e8f9''"

definition tid0 :: pystr where
  "tid0 = ustr ''task-0a1b2c3d''"

definition descr0 :: pystr where
  "descr0 = ustr ''fix database timeout bug''"

definition task0 :: task where
  "task0 = \<lparr>id_task = tid0, description = descr0, agent_type = ustr ''codex'',
            branch = ustr ''feat/fix-database-timeout-bug'', status = ustr ''pending'',
            started_at = None, completed_at = None, error = None, pr_url = None\<rparr>"

definition wt0 :: path where
  "wt0 = [ustr ''workspace'', ustr ''agent'', ustr ''.agent-cluster'', ustr ''worktrees'',
          ustr ''feat_fix-database-timeout-bug'']"

definition env_ok :: start_env where
  "env_ok = \<lparr>wt_exists = False, git_add = Returns 0, has_package_json = False,
             has_pom_xml = False, has_requirements_txt = False, has_go_mod = False,
             deps_run = Returns (), prompt_write = Returns (), popen = Returns \<lparr>pid = 4242\<rparr>,
             now = ustr ''2024-11-03T01:59:00'', repr = (\<lambda>k. ustr [CHR 39] @ k @ ustr [CHR 39])\<rparr>"

definition env_again :: start_env where
  "env_again = env_ok\<lparr>wt_exists := True, popen := Returns \<lparr>pid = 4343\<rparr>,
                      now := ustr ''2024-11-03T02:30:00''\<rparr>"


definition env_nolaunch :: start_env where
  "env_nolaunch = env_ok\<lparr>popen := Raises (External (ustr ''[Errno 13] Permission denied''))\<rparr>"

definition env_back :: status_env where
  "env_back = \<lparr>poll = Some 0, now_status = ustr ''2024-11-03T01:01:00''\<rparr>"

definition st_created :: orchestrator where
  "st_created = snd (create_task db0 uuid0 descr0 None fresh)"

definition st_running :: orchestrator where
  "st_running = snd (start_task env_ok tid0 st_created)"

definition st_stopped :: orchestrator where
  "st_stopped = snd (stop_task (Returns ()) tid0 st_running)"

definition task0_running :: task where
  "task0_running =
     task0\<lparr>status := ustr ''running'', started_at := Some (ustr ''2024-11-03T01:59:00'')\<rparr>"

definition env_exit :: status_env where
  "env_exit = \<lparr>poll = Some 0, now_status = ustr ''2024-11-03T02:10:00''\<rparr>"

definition env_alive :: status_env where
  "env_alive = \<lparr>poll = None, now_status = ustr ''2024-11-03T02:10:00''\<rparr>"


definition no_such_process :: "unit outcome" where
  "no_such_process = Raises (External (ustr ''[Errno 3] No such process''))"

section \<open>Strings: substring test and replacement\<close>

lemma startswith_iff: "startswith s p \<longleftrightarrow> (\<exists>q. s = p @ q)"
  by (induction s p rule: startswith.induct) auto

lemma py_in_iff: "py_in kw s \<longleftrightarrow> (\<exists>p q. s = p @ kw @ q)"
proof (induction s)
  case Nil
  show ?case by auto
next
  case (Cons c cs)
  show ?case
  proof
    assume "py_in kw (c # cs)"
    then consider "startswith (c # cs) kw" | "py_in kw cs" by auto
    then show "\<exists>p q. c # cs = p @ kw @ q"
    proof cases
      case 1
      then obtain q where "c # cs = kw @ q" by (auto simp: startswith_iff)
      then have "c # cs = [] @ kw @ q" by simp
      then show ?thesis by blast
    next
      case 2
      then obtain p q where "cs = p @ kw @ q" using Cons.IH by blast
      then have "c # cs = (c # p) @ kw @ q" by simp
      then show ?thesis by blast
    qed
  next
    assume "\<exists>p q. c # cs = p @ kw @ q"
    then obtain p q where pq: "c # cs = p @ kw @ q" by blast
    show "py_in kw (c # cs)"
    proof (cases p)
      case Nil
      with pq have "startswith (c # cs) kw" by (auto simp: startswith_iff)
      then show ?thesis by simp
    next
      case (Cons a p')
      with pq have "cs = p' @ kw @ q" by simp
      then have "py_in kw cs" using Cons.IH by blast
      then show ?thesis by simp
    qed
  qed
qed

text \<open>What has been read only matters to a capital sigma.\<close>

lemma lower_from_append:
  "\<exists>x. lower_from db before (p @ r) = x @ lower_from db (before @ p) r"
proof (induction p arbitrary: before)
  case Nil
  show ?case by simp
next
  case (Cons c p)
  from Cons.IH [of "before @ [c]"] obtain x
    where "lower_from db (before @ [c]) (p @ r) = x @ lower_from db (before @ c # p) r"
    by auto
  then show ?case by simp
qed

text \<open>
  A stretch of code points that are their own lower case, none of them the capital sigma,
  comes out of \<^verbatim>\<open>lower()\<close> as it is, wherever it stands.
\<close>

lemma lower_from_fixed:
  assumes "\<forall>c \<in> set kw. c \<noteq> 931 \<and> lower_full db c = [c]"
  shows "lower_from db before (kw @ q) = kw @ lower_from db (before @ kw) q"
  using assms by (induction kw arbitrary: before) simp_all

lemma py_in_lower:
  assumes "\<forall>c \<in> set kw. c \<noteq> 931 \<and> lower_full db c = [c]" and "py_in kw d"
  shows "py_in kw (py_lower db d)"
proof -
  from assms(2) obtain p q where d: "d = p @ kw @ q" by (auto simp: py_in_iff)
  obtain x where "lower_from db [] (p @ kw @ q) = x @ lower_from db ([] @ p) (kw @ q)"
    using lower_from_append [of db "[]" p "kw @ q"] by blast
  then have "py_lower db d = x @ kw @ lower_from db (p @ kw) q"
    by (simp add: py_lower_def d lower_from_fixed [OF assms(1)])
  then show ?thesis by (auto simp: py_in_iff)
qed

text \<open>On an ASCII string \<^verbatim>\<open>lower()\<close> works code point by code point.\<close>

lemma py_lower_ascii:
  assumes "\<forall>c \<in> set s. c < 128"
  shows "py_lower db s = map ascii_lower s"
proof -
  have "lower_from db before s = map ascii_lower s" for before
    using assms by (induction s arbitrary: before) (simp_all add: lower_full_def)
  then show ?thesis by (simp add: py_lower_def)
qed

lemma py_lower_alphabet:
  "py_lower db (ustr ''ABCDEFGHIJKLMNOPQRSTUVWXYZ'') = ustr ''abcdefghijklmnopqrstuvwxyz''"
  "py_lower db (ustr ''abcxyz 0123456789 -_/.@[`{'') = ustr ''abcxyz 0123456789 -_/.@[`{''"
  by (simp_all add: py_lower_ascii ascii_lower_def ustr_def)

text \<open>Beyond ASCII, with the excerpt \<open>db0\<close>: longer results, and the two sigmas.\<close>

lemma py_lower_db0:
  "py_lower db0 [201, 304, 8490] = [233, 105, 775, 107]"
  "py_lower db0 [65, 931] = [97, 962]"
  "py_lower db0 [65, 931, 66] = [97, 963, 98]"
  "py_lower db0 [931] = [963]"
  "py_lower db0 [65, 46, 931, 46] = [97, 46, 962, 46]"
  by (simp_all add: py_lower_def lower_full_def ascii_lower_def final_sigma_def db0_def)

lemma py_replace_single: "py_replace [a] [b] s = map (\<lambda>c. if c = a then b else c) s"
proof (induction s)
  case Nil
  show ?case by (simp add: py_replace.simps)
next
  case (Cons c cs)
  then show ?case by (subst py_replace.simps) simp
qed

section \<open>What the steps of a start leave alone\<close>

lemma record_call_simps [simp]:
  "tasks (record_call c s) = tasks s"
  "tasks_file (record_call c s) = tasks_file s"
  "workspace (record_call c s) = workspace s"
  "RUNNING_AGENTS (record_call c s) = RUNNING_AGENTS s"
  "calls (record_call c s) = calls s @ [c]"
  by (simp_all add: record_call_def)

lemma save_tasks_simps [simp]:
  "tasks (save_tasks s) = tasks s"
  "tasks_file (save_tasks s) = Some (tasks s)"
  "workspace (save_tasks s) = workspace s"
  "RUNNING_AGENTS (save_tasks s) = RUNNING_AGENTS s"
  "calls (save_tasks s) = calls s"
  by (simp_all add: save_tasks_def)

lemma ensure_worktree_frame:
  assumes "ensure_worktree env t s = (s', r)"
  shows "tasks s' = tasks s \<and> tasks_file s' = tasks_file s \<and> workspace s' = workspace s
       \<and> RUNNING_AGENTS s' = RUNNING_AGENTS s \<and> (\<exists>made. calls s' = calls s @ made)"
  using assms by (auto simp: ensure_worktree_def Let_def split: if_splits outcome.splits)

lemma install_deps_frame:
  assumes "install_deps env w s = (s', r)"
  shows "tasks s' = tasks s \<and> tasks_file s' = tasks_file s \<and> workspace s' = workspace s
       \<and> RUNNING_AGENTS s' = RUNNING_AGENTS s \<and> (\<exists>made. calls s' = calls s @ made)"
  using assms by (auto simp: install_deps_def split: if_splits)

lemma start_agent_frame:
  assumes "start_agent env t w s = (s', r)"
  shows "tasks s' = tasks s \<and> tasks_file s' = tasks_file s \<and> workspace s' = workspace s
       \<and> (\<exists>made. calls s' = calls s @ made)
       \<and> (case r of
             Raises e \<Rightarrow> RUNNING_AGENTS s' = RUNNING_AGENTS s
           | Returns n \<Rightarrow> \<exists>p. popen env = Returns p \<and> n = pid p
               \<and> RUNNING_AGENTS s' = (RUNNING_AGENTS s)(id_task t \<mapsto> p))"
  using assms by (auto simp: start_agent_def Let_def split: option.splits outcome.splits)

text \<open>
  The \<^verbatim>\<open>try\<close> block changes neither the records nor the record file; it registers a
  handle only when it reaches the end, and under the record's own identifier.
\<close>

lemma start_steps_frame:
  assumes "start_steps env task_id t s = (s', r)"
  shows "tasks s' = tasks s \<and> tasks_file s' = tasks_file s \<and> workspace s' = workspace s
       \<and> (\<exists>made. calls s' = calls s @ made)
       \<and> (case r of
             Raises e \<Rightarrow> RUNNING_AGENTS s' = RUNNING_AGENTS s
           | Returns n \<Rightarrow> \<exists>p. popen env = Returns p \<and> n = pid p
               \<and> RUNNING_AGENTS s' = (RUNNING_AGENTS s)(id_task t \<mapsto> p))"
proof -
  obtain sa ra where a: "ensure_worktree env t s = (sa, ra)"
    by (cases "ensure_worktree env t s")
  note fa = ensure_worktree_frame [OF a]
  show ?thesis
  proof (cases ra)
    case (Raises e)
    with a assms fa show ?thesis by (auto simp: start_steps_def)
  next
    case (Returns w)
    obtain sb rb where b: "install_deps env w sa = (sb, rb)"
      by (cases "install_deps env w sa")
    note fb = install_deps_frame [OF b]
    show ?thesis
    proof (cases rb)
      case (Raises e)
      with a b Returns assms fa fb show ?thesis by (auto simp: start_steps_def)
    next
      case r2: (Returns u)
      show ?thesis
      proof (cases "prompt_write env")
        case (Raises e)
        with a b Returns r2 assms fa fb show ?thesis by (auto simp: start_steps_def Let_def)
      next
        case r3: (Returns u')
        from a b Returns r2 r3 assms
        have c: "start_agent env t w (record_call (Write_prompt task_id) sb) = (s', r)"
          by (simp add: start_steps_def Let_def)
        from start_agent_frame [OF c] fa fb show ?thesis
          by (cases r) auto
      qed
    qed
  qed
qed

lemma start_task_Some_raises:
  assumes "tasks s task_id = Some t" and "start_steps env task_id t s = (s', Raises e)"
  shows "start_task env task_id s =
     (False, save_tasks (s'\<lparr>tasks := (tasks s')(task_id \<mapsto>
                t\<lparr>status := ustr ''failed'', error := Some (str_exn (repr env) e)\<rparr>)\<rparr>))"
  using assms by (simp add: start_task_def)

lemma start_task_Some_returns:
  assumes "tasks s task_id = Some t" and "start_steps env task_id t s = (s', Returns n)"
  shows "start_task env task_id s =
     (True, save_tasks (s'\<lparr>tasks := (tasks s')(task_id \<mapsto>
                t\<lparr>status := ustr ''running'', started_at := Some (now env)\<rparr>)\<rparr>))"
  using assms by (simp add: start_task_def)

text \<open>Each step of the \<^verbatim>\<open>try\<close> block can end it with an exception.\<close>

lemma start_steps_git_raises:
  "\<not> wt_exists env \<Longrightarrow> git_add env = Raises e \<Longrightarrow>
   snd (start_steps env task_id t s) = Raises e"
  by (simp add: start_steps_def ensure_worktree_def Let_def)

lemma start_steps_deps_raises:
  assumes "wt_exists env \<or> git_add env = Returns rc"
    and "has_package_json env \<or> has_pom_xml env \<or> has_requirements_txt env \<or> has_go_mod env"
    and "deps_run env = Raises e"
  shows "snd (start_steps env task_id t s) = Raises e"
  using assms by (auto simp: start_steps_def ensure_worktree_def install_deps_def Let_def)

lemma start_steps_prompt_raises:
  assumes "wt_exists env \<or> git_add env = Returns rc"
    and "deps_run env = Returns ()"
    and "prompt_write env = Raises e"
  shows "snd (start_steps env task_id t s) = Raises e"
  using assms by (auto simp: start_steps_def ensure_worktree_def install_deps_def Let_def)

lemma start_steps_launch_raises:
  assumes "wt_exists env \<or> git_add env = Returns rc"
    and "deps_run env = Returns ()"
    and "prompt_write env = Returns ()"
    and "AGENTS_CONFIG (agent_type t) = None \<and> e = KeyError (agent_type t)
         \<or> AGENTS_CONFIG (agent_type t) \<noteq> None \<and> popen env = Raises e"
  shows "snd (start_steps env task_id t s) = Raises e"
  using assms
  by (auto simp: start_steps_def ensure_worktree_def install_deps_def start_agent_def Let_def)

section \<open>The concrete run, evaluated\<close>

lemma select_agent_descr0: "select_agent db descr0 = ustr ''codex''"
  by (simp add: select_agent_def any_kw_def frontend_kws_def backend_kws_def py_lower_ascii
      ascii_lower_def ustr_def descr0_def)

lemma derive_branch_descr0: "derive_branch db descr0 = ustr ''feat/fix-database-timeout-bug''"
  by (simp add: derive_branch_def py_replace_single py_lower_ascii ascii_lower_def ustr_def
      descr0_def)

lemma create0:
  "create_task db uuid0 descr0 None fresh =
     (task0, fresh\<lparr>tasks := [tid0 \<mapsto> task0], tasks_file := Some [tid0 \<mapsto> task0]\<rparr>)"
  by (simp add: create_task_def select_agent_descr0 derive_branch_descr0 task0_def
      save_tasks_def fresh_def Let_def uuid0_def tid0_def ustr_def)

lemma st_created_eq:
  "st_created = fresh\<lparr>tasks := [tid0 \<mapsto> task0], tasks_file := Some [tid0 \<mapsto> task0]\<rparr>"
  by (simp add: st_created_def create0)

lemma worktree_path0: "worktree_path_of (workspace fresh) (branch task0) = wt0"
  by (simp add: worktree_path_of_def py_replace_single path_join_def fresh_def task0_def
      wt0_def ustr_def)

lemma AGENTS_CONFIG_task0:
  "AGENTS_CONFIG (agent_type task0) =
     Some \<lparr>name = ustr ''Codex'', model = ustr ''gpt-5.3-codex'', priority = 90,
           command = ustr ''claude-code''\<rparr>"
  by (simp add: AGENTS_CONFIG_def task0_def)

lemma start_steps_ok0:
  "start_steps env_ok tid0 task0 st_created =
     (st_created\<lparr>RUNNING_AGENTS := [tid0 \<mapsto> \<lparr>pid = 4242\<rparr>],
        calls := [Git_worktree_add wt0 (branch task0), Write_prompt tid0, Popen wt0 tid0]\<rparr>,
      Returns 4242)"
proof -
  have w: "worktree_path_of (workspace st_created) (branch task0) = wt0"
    using worktree_path0 by (simp add: st_created_eq fresh_def)
  have i: "id_task task0 = tid0" by (simp add: task0_def)
  show ?thesis
    by (simp add: start_steps_def ensure_worktree_def install_deps_def start_agent_def Let_def
        w AGENTS_CONFIG_task0 i env_ok_def record_call_def)
       (simp add: st_created_eq fresh_def)
qed

lemma st_running_eq:
  "st_running = \<lparr>workspace = [ustr ''workspace'', ustr ''agent''],
      tasks = [tid0 \<mapsto> task0_running], RUNNING_AGENTS = [tid0 \<mapsto> \<lparr>pid = 4242\<rparr>],
      tasks_file = Some [tid0 \<mapsto> task0_running],
      calls = [Git_worktree_add wt0 (branch task0), Write_prompt tid0, Popen wt0 tid0]\<rparr>"
proof -
  have t: "tasks st_created tid0 = Some task0" by (simp add: st_created_eq)
  show ?thesis
    unfolding st_running_def start_task_Some_returns [OF t start_steps_ok0]
    by (simp add: save_tasks_def st_created_eq fresh_def task0_running_def env_ok_def)
qed

lemma start_steps_nolaunch0:
  "start_steps env_nolaunch tid0 task0 st_created =
     (st_created\<lparr>calls :=
        [Git_worktree_add wt0 (branch task0), Write_prompt tid0, Popen wt0 tid0]\<rparr>,
      Raises (External (ustr ''[Errno 13] Permission denied'')))"
proof -
  have w: "worktree_path_of (workspace st_created) (branch task0) = wt0"
    using worktree_path0 by (simp add: st_created_eq fresh_def)
  have i: "id_task task0 = tid0" by (simp add: task0_def)
  show ?thesis
    by (simp add: start_steps_def ensure_worktree_def install_deps_def start_agent_def Let_def
        w AGENTS_CONFIG_task0 i env_nolaunch_def env_ok_def record_call_def)
       (simp add: st_created_eq fresh_def)
qed

section \<open>Start on an unknown task\<close>

text \<open>
  C5. For a task identifier that is not in the store, \<^verbatim>\<open>start_task\<close> returns
  \<^verbatim>\<open>False\<close> and the whole state is as before: the mapping in memory, the record
  file, the live-process table, and no call to the system was made.
\<close>

theorem start_task_not_found:
  "tasks s task_id = None \<Longrightarrow> start_task env task_id s = (False, s)"
  by (simp add: start_task_def)

theorem start_task_not_found_witness:
  "tasks st_created (ustr ''task-ffffffff'') = None
   \<and> start_task env_ok (ustr ''task-ffffffff'') st_created = (False, st_created)"
proof -
  have n: "tasks st_created (ustr ''task-ffffffff'') = None"
    by (simp add: st_created_eq tid0_def ustr_def)
  show ?thesis
    using start_task_not_found [OF n, of env_ok] n by simp
qed

section \<open>An exception during start\<close>

text \<open>
  C6. For an existing task, when the \<^verbatim>\<open>try\<close> block of \<^verbatim>\<open>start_task\<close> (worktree,
  dependencies, prompt, launch) ends with an exception \<open>e\<close>, \<^verbatim>\<open>start_task\<close> returns
  \<^verbatim>\<open>False\<close>, the record has status failed and the text of \<open>e\<close> in its error
  field, the record file holds the mapping of the memory, and the calls made before the
  exception stay made: nothing is rolled back.
\<close>

theorem start_task_exception:
  assumes "tasks s task_id = Some t" and "start_steps env task_id t s = (s', Raises e)"
  shows "fst (start_task env task_id s) = False
     \<and> tasks (snd (start_task env task_id s)) =
         (tasks s)(task_id \<mapsto>
            t\<lparr>status := ustr ''failed'', error := Some (str_exn (repr env) e)\<rparr>)
     \<and> tasks_file (snd (start_task env task_id s)) =
         Some (tasks (snd (start_task env task_id s)))
     \<and> calls (snd (start_task env task_id s)) = calls s'
     \<and> (\<exists>made. calls s' = calls s @ made)"
  using start_steps_frame [OF assms(2)] by (simp add: start_task_Some_raises [OF assms])

theorem start_task_exception_witness:
  "tasks st_created tid0 = Some task0
   \<and> fst (start_task env_nolaunch tid0 st_created) = False
   \<and> tasks (snd (start_task env_nolaunch tid0 st_created)) tid0 =
       Some (task0\<lparr>status := ustr ''failed'',
          error := Some (ustr ''[Errno 13] Permission denied'')\<rparr>)
   \<and> tasks_file (snd (start_task env_nolaunch tid0 st_created)) =
       Some (tasks (snd (start_task env_nolaunch tid0 st_created)))
   \<and> calls (snd (start_task env_nolaunch tid0 st_created)) =
       [Git_worktree_add wt0 (branch task0), Write_prompt tid0, Popen wt0 tid0]"
proof -
  have t: "tasks st_created tid0 = Some task0" by (simp add: st_created_eq)
  show ?thesis
    using start_task_exception [OF t start_steps_nolaunch0] t
    by (simp add: str_exn_def env_nolaunch_def)
qed

section \<open>Delete\<close>

text \<open>
  C7. For an existing task identifier, \<^verbatim>\<open>delete_task\<close> returns \<^verbatim>\<open>True\<close>, whatever
  the stop before it did (no tracked process, a kill that raised, a kill that worked):
  the record is gone from the mapping, the other records are as before, the record file
  holds the new mapping, and \<^verbatim>\<open>check_task_status\<close> on that identifier then answers
  "Task not found".
\<close>

theorem delete_task_removes:
  assumes "tasks s task_id = Some t"
  shows "fst (delete_task kill task_id s) = True
     \<and> tasks (snd (delete_task kill task_id s)) = (tasks s)(task_id := None)
     \<and> tasks_file (snd (delete_task kill task_id s)) = Some ((tasks s)(task_id := None))
     \<and> fst (check_task_status env task_id (snd (delete_task kill task_id s)))
         = Returns (Error_reply (ustr ''Task not found''))"
  using assms
  by (cases kill; cases "RUNNING_AGENTS s task_id")
     (auto simp: delete_task_def stop_task_def save_tasks_def record_call_def Let_def
       check_task_status_def dom_def)

theorem delete_task_removes_witness:
  "tasks st_running tid0 = Some task0_running
   \<and> fst (delete_task no_such_process tid0 st_running) = True
   \<and> tasks (snd (delete_task no_such_process tid0 st_running)) tid0 = None
   \<and> tasks_file (snd (delete_task no_such_process tid0 st_running)) = Some Map.empty
   \<and> fst (check_task_status env_back tid0 (snd (delete_task no_such_process tid0 st_running)))
       = Returns (Error_reply (ustr ''Task not found''))"
proof -
  have t: "tasks st_running tid0 = Some task0_running" by (simp add: st_running_eq)
  show ?thesis
    using delete_task_removes [OF t, of no_such_process env_back] t
    by (simp add: st_running_eq)
qed

section \<open>The concrete run, continued\<close>

lemma st_running_task: "tasks st_running tid0 = Some task0_running"
  by (simp add: st_running_eq)

lemma st_running_proc: "RUNNING_AGENTS st_running tid0 = Some \<lparr>pid = 4242\<rparr>"
  by (simp add: st_running_eq)

lemma st_running_path: "worktree_path_of (workspace st_running) (branch task0_running) = wt0"
  using worktree_path0 by (simp add: st_running_eq fresh_def task0_running_def)

lemma AGENTS_CONFIG_task0_running:
  "AGENTS_CONFIG (agent_type task0_running) =
     Some \<lparr>name = ustr ''Codex'', model = ustr ''gpt-5.3-codex'', priority = 90,
           command = ustr ''claude-code''\<rparr>"
  using AGENTS_CONFIG_task0 by (simp add: task0_running_def)

lemma start_steps_again0:
  "start_steps env_again tid0 task0_running st_running =
     (st_running\<lparr>RUNNING_AGENTS := [tid0 \<mapsto> \<lparr>pid = 4343\<rparr>],
        calls := calls st_running @ [Write_prompt tid0, Popen wt0 tid0]\<rparr>,
      Returns 4343)"
proof -
  have i: "id_task task0_running = tid0" by (simp add: task0_running_def task0_def)
  show ?thesis
    by (simp add: start_steps_def ensure_worktree_def install_deps_def start_agent_def Let_def
        st_running_path AGENTS_CONFIG_task0_running i env_again_def env_ok_def record_call_def)
       (simp add: st_running_eq)
qed


lemma st_stopped_eq:
  "st_stopped = st_running\<lparr>
      tasks := [tid0 \<mapsto> task0_running\<lparr>status := ustr ''failed'',
                   error := Some (ustr ''Stopped by user'')\<rparr>],
      RUNNING_AGENTS := Map.empty,
      tasks_file := Some [tid0 \<mapsto> task0_running\<lparr>status := ustr ''failed'',
                   error := Some (ustr ''Stopped by user'')\<rparr>],
      calls := calls st_running @ [Killpg 4242]\<rparr>"
  by (simp add: st_stopped_def stop_task_def st_running_task st_running_proc Let_def
      save_tasks_def record_call_def)
     (simp add: st_running_eq)

section \<open>A worktree that exists is reused\<close>

lemma ensure_worktree_exists:
  "wt_exists env \<Longrightarrow>
   ensure_worktree env t s = (s, Returns (worktree_path_of (workspace s) (branch t)))"
  by (simp add: ensure_worktree_def)

lemma install_deps_calls:
  "install_deps env w s = (s', r) \<Longrightarrow> calls s' = calls s @ made \<Longrightarrow>
   Git_worktree_add p b \<notin> set made"
  by (auto simp: install_deps_def split: if_splits)

lemma start_agent_calls:
  "start_agent env t w s = (s', r) \<Longrightarrow> calls s' = calls s @ made \<Longrightarrow>
   Git_worktree_add p b \<notin> set made"
  by (auto simp: start_agent_def Let_def split: option.splits outcome.splits)

lemma install_deps_git_irrelevant:
  "install_deps (env\<lparr>git_add := g\<rparr>) w s = install_deps env w s"
  by (simp add: install_deps_def)

lemma start_agent_git_irrelevant:
  "start_agent (env\<lparr>git_add := g\<rparr>) t w s = start_agent env t w s"
  by (simp add: start_agent_def Let_def split: option.splits)

lemma start_steps_git_irrelevant:
  "wt_exists env \<Longrightarrow>
   start_steps (env\<lparr>git_add := g\<rparr>) task_id t s = start_steps env task_id t s"
  by (simp add: start_steps_def ensure_worktree_def install_deps_git_irrelevant
      start_agent_git_irrelevant Let_def split: prod.splits outcome.splits)

lemma start_task_git_irrelevant:
  "wt_exists env \<Longrightarrow> start_task (env\<lparr>git_add := g\<rparr>) task_id s = start_task env task_id s"
  by (cases "tasks s task_id") (simp_all add: start_task_def start_steps_git_irrelevant)

lemma start_steps_no_git:
  assumes "wt_exists env"
  shows "Git_worktree_add p b \<notin>
     set (drop (length (calls s)) (calls (fst (start_steps env task_id t s))))"
proof -
  let ?w = "worktree_path_of (workspace s) (branch t)"
  obtain sb rb where b: "install_deps env ?w s = (sb, rb)"
    by (cases "install_deps env ?w s")
  from install_deps_frame [OF b] obtain m1 where m1: "calls sb = calls s @ m1" by blast
  have n1: "Git_worktree_add p b \<notin> set m1" by (rule install_deps_calls [OF b m1])
  show ?thesis
  proof (cases rb)
    case (Raises e)
    with assms b m1 n1 show ?thesis by (simp add: start_steps_def ensure_worktree_def)
  next
    case (Returns u)
    show ?thesis
    proof (cases "prompt_write env")
      case (Raises e)
      with assms b m1 n1 Returns show ?thesis
        by (simp add: start_steps_def ensure_worktree_def Let_def)
    next
      case r3: (Returns u')
      let ?s3 = "record_call (Write_prompt task_id) sb"
      obtain sc rc where c: "start_agent env t ?w ?s3 = (sc, rc)"
        by (cases "start_agent env t ?w ?s3")
      from start_agent_frame [OF c] obtain m2 where m2: "calls sc = calls ?s3 @ m2" by blast
      have n2: "Git_worktree_add p b \<notin> set m2" by (rule start_agent_calls [OF c m2])
      from assms b Returns r3 c have "fst (start_steps env task_id t s) = sc"
        by (simp add: start_steps_def ensure_worktree_def Let_def)
      with m1 m2 n1 n2 show ?thesis by simp
    qed
  qed
qed

text \<open>
  C9. When the worktree directory of the task exists at a start (as at a second start
  after the first created it), the worktree step makes no call and returns the path; the
  path is a function of the workspace and the branch alone, the branch with every
  \<^verbatim>\<open>/\<close> (47) replaced by \<^verbatim>\<open>_\<close> (95); whatever \<^verbatim>\<open>git worktree add\<close> would have
  done, raise included, changes nothing in the result of \<^verbatim>\<open>start_task\<close>; none of the
  calls the start makes is a \<^verbatim>\<open>git worktree add\<close>; and the start leaves the branch
  and the workspace as they were, so the next start computes the same path.
\<close>

theorem worktree_reused:
  assumes "wt_exists env" and "tasks s task_id = Some t"
  shows "ensure_worktree env t s = (s, Returns (worktree_path_of (workspace s) (branch t)))
     \<and> worktree_path_of (workspace s) (branch t) =
         path_join (workspace s @ [ustr ''.agent-cluster'', ustr ''worktrees''])
           (map (\<lambda>c. if c = 47 then 95 else c) (branch t))
     \<and> start_task (env\<lparr>git_add := g\<rparr>) task_id s = start_task env task_id s
     \<and> Git_worktree_add p b \<notin>
         set (drop (length (calls s)) (calls (snd (start_task env task_id s))))
     \<and> (\<exists>t'. tasks (snd (start_task env task_id s)) task_id = Some t' \<and> branch t' = branch t)
     \<and> workspace (snd (start_task env task_id s)) = workspace s"
proof -
  obtain s' r where sr: "start_steps env task_id t s = (s', r)"
    by (cases "start_steps env task_id t s")
  note fr = start_steps_frame [OF sr]
  have ng: "Git_worktree_add p b \<notin> set (drop (length (calls s)) (calls s'))"
    using start_steps_no_git [OF assms(1), of p b s task_id t] sr by simp
  have path: "worktree_path_of (workspace s) (branch t) =
         path_join (workspace s @ [ustr ''.agent-cluster'', ustr ''worktrees''])
           (map (\<lambda>c. if c = 47 then 95 else c) (branch t))"
    by (simp add: worktree_path_of_def ustr_def py_replace_single)
  show ?thesis
  proof (cases r)
    case (Raises e)
    with sr have "start_task env task_id s =
     (False, save_tasks (s'\<lparr>tasks := (tasks s')(task_id \<mapsto>
                t\<lparr>status := ustr ''failed'', error := Some (str_exn (repr env) e)\<rparr>)\<rparr>))"
      using start_task_Some_raises [OF assms(2)] by simp
    with fr ng path assms(1) show ?thesis
      by (simp add: ensure_worktree_exists start_task_git_irrelevant)
  next
    case (Returns n)
    with sr have "start_task env task_id s =
     (True, save_tasks (s'\<lparr>tasks := (tasks s')(task_id \<mapsto>
                t\<lparr>status := ustr ''running'', started_at := Some (now env)\<rparr>)\<rparr>))"
      using start_task_Some_returns [OF assms(2)] by simp
    with fr ng path assms(1) show ?thesis
      by (simp add: ensure_worktree_exists start_task_git_irrelevant)
  qed
qed

theorem worktree_reused_witness:
  "wt_exists env_again
   \<and> tasks st_running tid0 = Some task0_running
   \<and> ensure_worktree env_again task0_running st_running = (st_running, Returns wt0)
   \<and> start_task (env_again\<lparr>git_add := Raises (External (ustr ''fatal: a branch named X already exists''))\<rparr>)
        tid0 st_running = start_task env_again tid0 st_running
   \<and> Git_worktree_add wt0 (branch task0) \<notin>
        set (drop 3 (calls (snd (start_task env_again tid0 st_running))))
   \<and> calls (snd (start_task env_again tid0 st_running)) =
        [Git_worktree_add wt0 (branch task0), Write_prompt tid0, Popen wt0 tid0,
         Write_prompt tid0, Popen wt0 tid0]"
proof -
  have w: "wt_exists env_again" by (simp add: env_again_def)
  have l: "length (calls st_running) = 3" by (simp add: st_running_eq)
  have c: "calls (snd (start_task env_again tid0 st_running)) =
        [Git_worktree_add wt0 (branch task0), Write_prompt tid0, Popen wt0 tid0,
         Write_prompt tid0, Popen wt0 tid0]"
    by (simp add: start_task_Some_returns [OF st_running_task start_steps_again0])
       (simp add: st_running_eq)
  show ?thesis
    using worktree_reused [OF w st_running_task,
        of "Raises (External (ustr ''fatal: a branch named X already exists''))" wt0
          "branch task0"]
      w st_running_task c
    by (simp add: st_running_path l)
qed

section \<open>Stop\<close>

text \<open>
  C4, amended. For a stored task with an entry in the table whose process group takes the
  signal, \<^verbatim>\<open>stop_task\<close> returns \<^verbatim>\<open>True\<close>, the record has status failed and the
  error text \<^verbatim>\<open>Stopped by user\<close> (capital S, as the source writes it), the entry is
  removed, the record file holds the new mapping, and one \<^verbatim>\<open>killpg\<close> was sent. For a
  stored task without an entry (as after a restart, when the table is empty)
  \<^verbatim>\<open>stop_task\<close> returns \<^verbatim>\<open>False\<close> and the state is as before.
\<close>

theorem stop_task_tracked_or_not:
  assumes "tasks s task_id = Some t"
  shows "(RUNNING_AGENTS s task_id = Some p \<longrightarrow>
           (let s' = snd (stop_task (Returns ()) task_id s) in
            fst (stop_task (Returns ()) task_id s) = True
            \<and> tasks s' = (tasks s)(task_id \<mapsto>
                 t\<lparr>status := ustr ''failed'', error := Some (ustr ''Stopped by user'')\<rparr>)
            \<and> RUNNING_AGENTS s' = (RUNNING_AGENTS s)(task_id := None)
            \<and> tasks_file s' = Some (tasks s')
            \<and> calls s' = calls s @ [Killpg (pid p)]))
     \<and> (RUNNING_AGENTS s task_id = None \<longrightarrow> stop_task kill task_id s = (False, s))"
  using assms by (simp add: stop_task_def Let_def)

theorem stop_task_tracked_or_not_witness:
  "tasks st_running tid0 = Some task0_running
   \<and> RUNNING_AGENTS st_running tid0 = Some \<lparr>pid = 4242\<rparr>
   \<and> fst (stop_task (Returns ()) tid0 st_running) = True
   \<and> tasks st_stopped tid0 =
       Some (task0_running\<lparr>status := ustr ''failed'', error := Some (ustr ''Stopped by user'')\<rparr>)
   \<and> RUNNING_AGENTS st_stopped tid0 = None
   \<and> tasks_file st_stopped = Some (tasks st_stopped)
   \<and> tasks st_created tid0 = Some task0
   \<and> RUNNING_AGENTS st_created tid0 = None
   \<and> stop_task (Returns ()) tid0 st_created = (False, st_created)"
proof -
  have c: "tasks st_created tid0 = Some task0" "RUNNING_AGENTS st_created tid0 = None"
    by (simp_all add: st_created_eq fresh_def)
  show ?thesis
    using stop_task_tracked_or_not [OF st_running_task, of "\<lparr>pid = 4242\<rparr>" "Returns ()"]
      stop_task_tracked_or_not [OF c(1), of "\<lparr>pid = 4242\<rparr>" "Returns ()"]
      st_running_task st_running_proc c
    by (simp add: Let_def st_stopped_def)
qed

text \<open>
  The claim as stated gives the error text as \<^verbatim>\<open>stopped by user\<close>; the record holds
  \<^verbatim>\<open>Stopped by user\<close>, a different string.
\<close>

theorem stop_error_text_counterexample:
  "tasks st_running tid0 = Some task0_running
   \<and> RUNNING_AGENTS st_running tid0 = Some \<lparr>pid = 4242\<rparr>
   \<and> fst (stop_task (Returns ()) tid0 st_running) = True
   \<and> (\<exists>t'. tasks (snd (stop_task (Returns ()) tid0 st_running)) tid0 = Some t'
         \<and> error t' = Some (ustr ''Stopped by user'')
         \<and> error t' \<noteq> Some (ustr ''stopped by user''))"
  using st_running_task st_running_proc
  by (simp add: stop_task_def Let_def ustr_def)

section \<open>Status\<close>

text \<open>
  C3, amended. For a stored task, \<^verbatim>\<open>check_task_status\<close> changes the state exactly
  when the status is running, the task has an entry in the table and \<^verbatim>\<open>poll()\<close>
  reports an exit: then the record gets status completed and the clock's reading as
  \<^verbatim>\<open>completed_at\<close>, the entry is removed and the record file holds the new mapping.
  In every other case the state is as before. \<^verbatim>\<open>completed_at\<close> is the reading of the
  wall clock at the poll: it is not before \<^verbatim>\<open>started_at\<close> when that reading is not.
\<close>

theorem check_task_status_reconciles:
  assumes "tasks s task_id = Some t"
  shows "(status t = ustr ''running'' \<and> RUNNING_AGENTS s task_id \<noteq> None \<and> poll env \<noteq> None \<longrightarrow>
           (let s' = snd (check_task_status env task_id s) in
            tasks s' = (tasks s)(task_id \<mapsto>
                 t\<lparr>status := ustr ''completed'', completed_at := Some (now_status env)\<rparr>)
            \<and> RUNNING_AGENTS s' = (RUNNING_AGENTS s)(task_id := None)
            \<and> tasks_file s' = Some (tasks s')
            \<and> workspace s' = workspace s \<and> calls s' = calls s))
     \<and> (\<not> (status t = ustr ''running'' \<and> RUNNING_AGENTS s task_id \<noteq> None \<and> poll env \<noteq> None) \<longrightarrow>
           snd (check_task_status env task_id s) = s)
     \<and> (status t = ustr ''running'' \<and> RUNNING_AGENTS s task_id \<noteq> None \<and> poll env \<noteq> None
          \<and> started_at t = Some sa \<and> sa \<le> now_status env \<longrightarrow>
           (\<exists>t' ca. tasks (snd (check_task_status env task_id s)) task_id = Some t'
              \<and> started_at t' = Some sa \<and> completed_at t' = Some ca \<and> sa \<le> ca))"
  using assms
  by (auto simp: check_task_status_def reconcile_def Let_def split: option.splits)

theorem check_task_status_reconciles_witness:
  "tasks st_running tid0 = Some task0_running
   \<and> status task0_running = ustr ''running''
   \<and> RUNNING_AGENTS st_running tid0 \<noteq> None
   \<and> poll env_exit \<noteq> None \<and> poll env_alive = None
   \<and> started_at task0_running = Some (ustr ''2024-11-03T01:59:00'')
   \<and> ustr ''2024-11-03T01:59:00'' \<le> now_status env_exit
   \<and> tasks (snd (check_task_status env_exit tid0 st_running)) =
        [tid0 \<mapsto> task0_running\<lparr>status := ustr ''completed'',
                    completed_at := Some (ustr ''2024-11-03T02:10:00'')\<rparr>]
   \<and> RUNNING_AGENTS (snd (check_task_status env_exit tid0 st_running)) tid0 = None
   \<and> snd (check_task_status env_alive tid0 st_running) = st_running"
proof -
  have h: "status task0_running = ustr ''running''"
    "started_at task0_running = Some (ustr ''2024-11-03T01:59:00'')"
    by (simp_all add: task0_running_def)
  have e: "poll env_exit \<noteq> None" "poll env_alive = None"
    "now_status env_exit = ustr ''2024-11-03T02:10:00''"
    by (simp_all add: env_exit_def env_alive_def)
  have le: "ustr ''2024-11-03T01:59:00'' \<le> now_status env_exit"
    by (simp add: env_exit_def ustr_def)
  have m: "(tasks st_running)(tid0 \<mapsto> x) = [tid0 \<mapsto> x]" for x
    by (simp add: st_running_eq)
  show ?thesis
    using check_task_status_reconciles [OF st_running_task, of env_exit
        "ustr ''2024-11-03T01:59:00''"]
      check_task_status_reconciles [OF st_running_task, of env_alive
        "ustr ''2024-11-03T01:59:00''"]
      st_running_task st_running_proc h e le
    by (simp add: Let_def m)
qed

text \<open>
  The claim as stated has \<^verbatim>\<open>completed_at\<close> at or after \<^verbatim>\<open>started_at\<close>. Both are
  \<^verbatim>\<open>datetime.now().isoformat()\<close>, the local wall clock: in the night of 3 November
  2024 local time in New York went from 01:59 back to 01:00, and a task started at 01:59
  whose process is polled two minutes later is stamped 01:01.
\<close>

theorem completed_before_started_counterexample:
  "tasks st_running tid0 = Some task0_running
   \<and> status task0_running = ustr ''running''
   \<and> RUNNING_AGENTS st_running tid0 = Some \<lparr>pid = 4242\<rparr>
   \<and> poll env_back = Some 0
   \<and> (\<exists>t'. tasks (snd (check_task_status env_back tid0 st_running)) tid0 = Some t'
        \<and> status t' = ustr ''completed''
        \<and> started_at t' = Some (ustr ''2024-11-03T01:59:00'')
        \<and> completed_at t' = Some (ustr ''2024-11-03T01:01:00'')
        \<and> ustr ''2024-11-03T01:01:00'' < ustr ''2024-11-03T01:59:00'')"
  using st_running_task st_running_proc
  by (simp add: check_task_status_def reconcile_def Let_def task0_running_def env_back_def
      AGENTS_CONFIG_task0 split: option.splits)
     (simp add: ustr_def)

section \<open>The derived branch name\<close>

text \<open>
  C10. When \<^verbatim>\<open>create_task\<close> is called without a branch, the branch of the new record
  is \<^verbatim>\<open>feat/\<close> followed by the first 30 characters of the description, each space
  replaced by a hyphen, and the result in lower case (\<open>spec_branch\<close>): whatever the
  description holds after its 30th character is dropped. For an ASCII description the
  lower case is spelt out: \<^verbatim>\<open>A..Z\<close> (65 to 90) go to \<^verbatim>\<open>a..z\<close> and nothing else
  changes. The record is stored under the new identifier.
\<close>

theorem create_task_derived_branch:
  "branch (fst (create_task db uuid_hex descr None s)) = spec_branch db descr
   \<and> spec_branch db descr = spec_branch db (take 30 descr)
   \<and> ((\<forall>c \<in> set descr. c < 128) \<longrightarrow>
        branch (fst (create_task db uuid_hex descr None s)) =
          ustr ''feat/'' @
          map (\<lambda>c. if c = 32 then 45 else if 65 \<le> c \<and> c \<le> 90 then c + 32 else c)
            (take 30 descr))
   \<and> tasks (snd (create_task db uuid_hex descr None s)) (ustr ''task-'' @ take 8 uuid_hex)
       = Some (fst (create_task db uuid_hex descr None s))"
proof -
  have b: "branch (fst (create_task db uuid_hex descr None s)) = spec_branch db descr"
    by (simp add: create_task_def Let_def derive_branch_def spec_branch_def ustr_def
        py_replace_single)
  have a: "spec_branch db descr =
          ustr ''feat/'' @
          map (\<lambda>c. if c = 32 then 45 else if 65 \<le> c \<and> c \<le> 90 then c + 32 else c)
            (take 30 descr)"
    if "\<forall>c \<in> set descr. c < 128"
  proof -
    from that have "\<forall>c \<in> set (map (\<lambda>c. if c = 32 then 45 else c) (take 30 descr)). c < 128"
      by (auto dest: in_set_takeD)
    then show ?thesis
      by (simp add: spec_branch_def py_lower_ascii ascii_lower_def)
  qed
  have t: "tasks (snd (create_task db uuid_hex descr None s)) (ustr ''task-'' @ take 8 uuid_hex)
       = Some (fst (create_task db uuid_hex descr None s))"
    by (simp add: create_task_def Let_def)
  from a b t show ?thesis by (simp add: spec_branch_def)
qed

theorem create_task_derived_branch_witness:
  "list_all (\<lambda>c. c < 128) (ustr ''Fix The DATABASE Timeout Bug In Production NOW'')
   \<and> branch (fst (create_task db0 uuid0 (ustr ''Fix The DATABASE Timeout Bug In Production NOW'')
        None fresh)) = ustr ''feat/fix-the-database-timeout-bug-i''
   \<and> branch (fst (create_task db0 uuid0 ([201] @ ustr ''cole '' @ [304] @ ustr ''STANBUL'')
        None fresh)) = ustr ''feat/'' @ [233] @ ustr ''cole-'' @ [105, 775] @ ustr ''stanbul''
   \<and> branch (fst (create_task db0 uuid0 (ustr ''ABCDEFGHIJKLMNOPQRSTUVWXYZ 0123456789'')
        None fresh)) = ustr ''feat/abcdefghijklmnopqrstuvwxyz-012''"
proof -
  let ?f = "\<lambda>c::nat. if c = 32 then 45 else if 65 \<le> c \<and> c \<le> 90 then c + 32 else c"
  have a1: "\<forall>c \<in> set (ustr ''Fix The DATABASE Timeout Bug In Production NOW''). c < 128"
    and a2: "\<forall>c \<in> set (ustr ''ABCDEFGHIJKLMNOPQRSTUVWXYZ 0123456789''). c < 128"
    by (simp_all add: ustr_def)
  have "branch (fst (create_task db0 uuid0
          (ustr ''Fix The DATABASE Timeout Bug In Production NOW'') None fresh)) =
        ustr ''feat/'' @ map ?f (take 30 (ustr ''Fix The DATABASE Timeout Bug In Production NOW''))"
    using create_task_derived_branch [of db0 uuid0
        "ustr ''Fix The DATABASE Timeout Bug In Production NOW''" fresh] a1
    by blast
  then have b1: "branch (fst (create_task db0 uuid0
          (ustr ''Fix The DATABASE Timeout Bug In Production NOW'') None fresh)) =
        ustr ''feat/fix-the-database-timeout-bug-i''"
    by (simp add: ustr_def)
  have "branch (fst (create_task db0 uuid0 (ustr ''ABCDEFGHIJKLMNOPQRSTUVWXYZ 0123456789'')
          None fresh)) =
        ustr ''feat/'' @ map ?f (take 30 (ustr ''ABCDEFGHIJKLMNOPQRSTUVWXYZ 0123456789''))"
    using create_task_derived_branch [of db0 uuid0
        "ustr ''ABCDEFGHIJKLMNOPQRSTUVWXYZ 0123456789''" fresh] a2
    by blast
  then have b2: "branch (fst (create_task db0 uuid0
          (ustr ''ABCDEFGHIJKLMNOPQRSTUVWXYZ 0123456789'') None fresh)) =
        ustr ''feat/abcdefghijklmnopqrstuvwxyz-012''"
    by (simp add: ustr_def)
  have e: "spec_branch db0 ([201] @ ustr ''cole '' @ [304] @ ustr ''STANBUL'') =
      ustr ''feat/'' @ [233] @ ustr ''cole-'' @ [105, 775] @ ustr ''stanbul''"
    by (simp add: spec_branch_def py_lower_def lower_full_def ascii_lower_def db0_def ustr_def)
  have "branch (fst (create_task db0 uuid0 ([201] @ ustr ''cole '' @ [304] @ ustr ''STANBUL'')
          None fresh)) = spec_branch db0 ([201] @ ustr ''cole '' @ [304] @ ustr ''STANBUL'')"
    using create_task_derived_branch [of db0 uuid0
        "[201] @ ustr ''cole '' @ [304] @ ustr ''STANBUL''" fresh]
    by blast
  with e have b3: "branch (fst (create_task db0 uuid0
          ([201] @ ustr ''cole '' @ [304] @ ustr ''STANBUL'') None fresh)) =
      ustr ''feat/'' @ [233] @ ustr ''cole-'' @ [105, 775] @ ustr ''stanbul''"
    by (simp only:)
  from a1 have "list_all (\<lambda>c. c < 128) (ustr ''Fix The DATABASE Timeout Bug In Production NOW'')"
    by (simp add: list_all_iff)
  with b1 b2 b3 show ?thesis by blast
qed

section \<open>Agent selection and creation\<close>

lemma any_kw_iff: "any_kw kws s \<longleftrightarrow> (\<exists>kw \<in> set kws. py_in kw s)"
  by (simp add: any_kw_def list_ex_iff)

text \<open>
  The ASCII keywords are in lower case, so they are their own lower case; the Chinese
  keyword is when the database says so of its two code points (Unicode does).
\<close>

lemma keywords_fixed:
  "\<forall>c \<in> set (ustr ''frontend''). c \<noteq> 931 \<and> lower_full db c = [c]"
  "\<forall>c \<in> set (ustr ''database''). c \<noteq> 931 \<and> lower_full db c = [c]"
  "to_lower_full db 20013 = [20013] \<and> to_lower_full db 25991 = [25991] \<Longrightarrow>
   \<forall>c \<in> set [20013, 25991]. c \<noteq> 931 \<and> lower_full db c = [c]"
  by (simp_all add: ustr_def lower_full_def ascii_lower_def)

lemma select_frontend:
  assumes "py_in (ustr ''frontend'') d \<or> py_in (ustr ''frontend'') (py_lower db d)"
  shows "select_agent db d = ustr ''claude''"
proof -
  have "py_in (ustr ''frontend'') (py_lower db d)"
    using assms py_in_lower [of "ustr ''frontend''" db d] keywords_fixed(1) [of db] by blast
  then have "any_kw frontend_kws (py_lower db d)"
    by (simp add: any_kw_def frontend_kws_def)
  then show ?thesis by (simp add: select_agent_def)
qed

lemma select_database:
  assumes "py_in (ustr ''database'') d \<or> py_in (ustr ''database'') (py_lower db d)"
    and "\<not> any_kw frontend_kws (py_lower db d)"
  shows "select_agent db d = ustr ''codex''"
proof -
  have "py_in (ustr ''database'') (py_lower db d)"
    using assms(1) py_in_lower [of "ustr ''database''" db d] keywords_fixed(2) [of db] by blast
  then have "any_kw backend_kws (py_lower db d)"
    by (simp add: any_kw_def backend_kws_def)
  with assms(2) show ?thesis by (simp add: select_agent_def)
qed

lemma select_chinese:
  assumes "py_in [20013, 25991] d \<and> to_lower_full db 20013 = [20013]
             \<and> to_lower_full db 25991 = [25991]
           \<or> py_in [20013, 25991] (py_lower db d)"
    and "\<not> any_kw frontend_kws (py_lower db d)"
    and "\<not> any_kw backend_kws (py_lower db d)"
  shows "select_agent db d = ustr ''glm''"
proof -
  have "py_in [20013, 25991] (py_lower db d)"
    using assms(1) py_in_lower [of "[20013, 25991]" db d] keywords_fixed(3) [of db] by blast
  then have "any_kw locale_kws (py_lower db d)"
    by (simp add: any_kw_def locale_kws_def)
  with assms(2,3) show ?thesis by (simp add: select_agent_def)
qed

lemma select_empty: "select_agent db [] = ustr ''codex''"
  by (simp add: select_agent_def any_kw_def frontend_kws_def backend_kws_def locale_kws_def
      py_lower_def ustr_def)

text \<open>
  C8, amended. \<^verbatim>\<open>select_agent\<close> is a function of the description alone: the lower-cased
  description is matched against the frontend keywords, then the backend keywords, then
  the locale keywords, the first list with a match decides, and no match gives codex. A
  description containing \<^verbatim>\<open>frontend\<close> (as it is, or once lower-cased) selects claude.
  One containing \<^verbatim>\<open>database\<close> selects codex when no frontend keyword occurs in its
  lower case; one containing the Chinese word for "Chinese" (code points 20013, 25991,
  which have no case) selects glm when neither a frontend nor a backend keyword occurs in
  its lower case. The empty description selects codex. After \<^verbatim>\<open>create_task\<close> the new
  record is stored with status pending and this selection as its agent type.
\<close>

theorem select_agent_priority:
  "select_agent db d =
     (if \<exists>kw \<in> set frontend_kws. py_in kw (py_lower db d) then ustr ''claude''
      else if \<exists>kw \<in> set backend_kws. py_in kw (py_lower db d) then ustr ''codex''
      else if \<exists>kw \<in> set locale_kws. py_in kw (py_lower db d) then ustr ''glm''
      else ustr ''codex'')
   \<and> (py_in (ustr ''frontend'') d \<or> py_in (ustr ''frontend'') (py_lower db d) \<longrightarrow>
        select_agent db d = ustr ''claude'')
   \<and> ((py_in (ustr ''database'') d \<or> py_in (ustr ''database'') (py_lower db d))
        \<and> \<not> any_kw frontend_kws (py_lower db d) \<longrightarrow> select_agent db d = ustr ''codex'')
   \<and> ((py_in [20013, 25991] d \<and> to_lower_full db 20013 = [20013]
           \<and> to_lower_full db 25991 = [25991]
         \<or> py_in [20013, 25991] (py_lower db d))
        \<and> \<not> any_kw frontend_kws (py_lower db d) \<and> \<not> any_kw backend_kws (py_lower db d) \<longrightarrow>
        select_agent db d = ustr ''glm'')
   \<and> select_agent db [] = ustr ''codex''
   \<and> status (fst (create_task db uuid_hex d branch_arg s)) = ustr ''pending''
   \<and> agent_type (fst (create_task db uuid_hex d branch_arg s)) = select_agent db d
   \<and> tasks (snd (create_task db uuid_hex d branch_arg s)) (ustr ''task-'' @ take 8 uuid_hex)
       = Some (fst (create_task db uuid_hex d branch_arg s))"
proof -
  have a: "select_agent db d =
     (if \<exists>kw \<in> set frontend_kws. py_in kw (py_lower db d) then ustr ''claude''
      else if \<exists>kw \<in> set backend_kws. py_in kw (py_lower db d) then ustr ''codex''
      else if \<exists>kw \<in> set locale_kws. py_in kw (py_lower db d) then ustr ''glm''
      else ustr ''codex'')"
    by (simp add: select_agent_def any_kw_iff Let_def)
  have c: "status (fst (create_task db uuid_hex d branch_arg s)) = ustr ''pending''
   \<and> agent_type (fst (create_task db uuid_hex d branch_arg s)) = select_agent db d
   \<and> tasks (snd (create_task db uuid_hex d branch_arg s)) (ustr ''task-'' @ take 8 uuid_hex)
       = Some (fst (create_task db uuid_hex d branch_arg s))"
    by (simp add: create_task_def Let_def)
  from a c select_frontend [of d db] select_database [of d db] select_chinese [of d db]
    select_empty [of db]
  show ?thesis by blast
qed

theorem select_agent_priority_witness:
  "py_in (ustr ''frontend'') (py_lower db0 (ustr ''New FRONTEND Page''))
   \<and> select_agent db0 (ustr ''New FRONTEND Page'') = ustr ''claude''
   \<and> py_in (ustr ''database'') (py_lower db0 (ustr ''REFACTOR THE DATABASE LAYER''))
   \<and> select_agent db0 (ustr ''REFACTOR THE DATABASE LAYER'') = ustr ''codex''
   \<and> py_in (ustr ''database'') descr0
   \<and> select_agent db0 descr0 = ustr ''codex''
   \<and> py_in [20013, 25991] ([20013, 25991] @ ustr '' DOCS'')
   \<and> select_agent db0 ([20013, 25991] @ ustr '' DOCS'') = ustr ''glm''
   \<and> select_agent db0 (ustr ''database U'' @ [304]) = ustr ''claude''
   \<and> status (fst (create_task db0 uuid0 descr0 None fresh)) = ustr ''pending''
   \<and> agent_type (fst (create_task db0 uuid0 descr0 None fresh)) = ustr ''codex''"
proof -
  have f: "py_in (ustr ''frontend'') (py_lower db0 (ustr ''New FRONTEND Page''))"
    by (simp add: py_lower_ascii ascii_lower_def ustr_def)
  have u: "py_in (ustr ''database'') (py_lower db0 (ustr ''REFACTOR THE DATABASE LAYER''))"
    "\<not> any_kw frontend_kws (py_lower db0 (ustr ''REFACTOR THE DATABASE LAYER''))"
    by (simp_all add: any_kw_def frontend_kws_def py_lower_ascii ascii_lower_def ustr_def)
  have d: "py_in (ustr ''database'') descr0" "\<not> any_kw frontend_kws (py_lower db0 descr0)"
    by (simp_all add: descr0_def any_kw_def frontend_kws_def py_lower_ascii ascii_lower_def
        ustr_def)
  have z: "py_in [20013, 25991] ([20013, 25991] @ ustr '' DOCS'')"
    "to_lower_full db0 20013 = [20013]" "to_lower_full db0 25991 = [25991]"
    "\<not> any_kw frontend_kws (py_lower db0 ([20013, 25991] @ ustr '' DOCS''))"
    "\<not> any_kw backend_kws (py_lower db0 ([20013, 25991] @ ustr '' DOCS''))"
    by (simp_all add: any_kw_def frontend_kws_def backend_kws_def py_lower_def lower_full_def
        ascii_lower_def db0_def ustr_def)
  have i: "py_in (ustr ''ui'') (py_lower db0 (ustr ''database U'' @ [304]))"
    by (simp add: py_lower_def lower_full_def ascii_lower_def db0_def ustr_def)
  then have i': "\<exists>kw \<in> set frontend_kws. py_in kw (py_lower db0 (ustr ''database U'' @ [304]))"
    by (simp add: frontend_kws_def)
  show ?thesis
    using select_agent_priority [of db0 "ustr ''New FRONTEND Page''"]
      select_agent_priority [of db0 "ustr ''REFACTOR THE DATABASE LAYER''"]
      select_agent_priority [of db0 descr0 uuid0 None fresh]
      select_agent_priority [of db0 "[20013, 25991] @ ustr '' DOCS''"]
      select_agent_priority [of db0 "ustr ''database U'' @ [304]"] f u d z i'
    by metis
qed

text \<open>
  The claim as stated has every description containing \<^verbatim>\<open>database\<close> select codex and
  every one containing the Chinese keyword select glm. The word \<^verbatim>\<open>build\<close> contains the
  frontend keyword \<^verbatim>\<open>ui\<close>, which is matched first, and \<^verbatim>\<open>api\<close> is a backend keyword,
  matched before the locale keywords.
\<close>

theorem select_agent_counterexample:
  "py_in (ustr ''database'') (ustr ''build database'')
   \<and> select_agent db0 (ustr ''build database'') = ustr ''claude''
   \<and> select_agent db0 (ustr ''build database'') \<noteq> ustr ''codex''
   \<and> py_in [20013, 25991] ([20013, 25991] @ ustr '' api'')
   \<and> select_agent db0 ([20013, 25991] @ ustr '' api'') = ustr ''codex''
   \<and> select_agent db0 ([20013, 25991] @ ustr '' api'') \<noteq> ustr ''glm''"
  by (simp add: select_agent_def any_kw_def frontend_kws_def backend_kws_def py_lower_def
      lower_full_def ascii_lower_def db0_def ustr_def)

section \<open>The records after each operation\<close>

lemma start_task_other:
  assumes "k \<noteq> task_id"
  shows "tasks (snd (start_task env k s)) task_id = tasks s task_id"
proof (cases "tasks s k")
  case None
  then show ?thesis by (simp add: start_task_def)
next
  case (Some t)
  obtain s' r where sr: "start_steps env k t s = (s', r)" by (cases "start_steps env k t s")
  note fr = start_steps_frame [OF sr]
  show ?thesis
  proof (cases r)
    case (Raises e)
    with sr Some fr assms show ?thesis by (simp add: start_task_Some_raises [OF Some])
  next
    case (Returns n)
    with sr Some fr assms show ?thesis by (simp add: start_task_Some_returns [OF Some])
  qed
qed

text \<open>\<^verbatim>\<open>start_task\<close> has no check of the status: it sets running or failed.\<close>

lemma start_task_status:
  assumes "tasks s task_id = Some t"
  shows "\<exists>u. tasks (snd (start_task env task_id s)) task_id = Some u
     \<and> status u = (if fst (start_task env task_id s) then ustr ''running'' else ustr ''failed'')"
proof -
  obtain s' r where sr: "start_steps env task_id t s = (s', r)"
    by (cases "start_steps env task_id t s")
  show ?thesis
  proof (cases r)
    case (Raises e)
    with sr show ?thesis by (simp add: start_task_Some_raises [OF assms])
  next
    case (Returns n)
    with sr show ?thesis by (simp add: start_task_Some_returns [OF assms])
  qed
qed


lemma start_task_absent: "tasks s task_id = None \<Longrightarrow> snd (start_task env task_id s) = s"
  by (simp add: start_task_def)

text \<open>A start in which no step raises succeeds.\<close>

lemma start_task_succeeds:
  assumes "tasks s task_id = Some t"
    and "wt_exists env \<or> git_add env = Returns returncode"
    and "deps_run env = Returns ()"
    and "prompt_write env = Returns ()"
    and "AGENTS_CONFIG (agent_type t) = Some cfg"
    and "popen env = Returns p"
  shows "fst (start_task env task_id s) = True"
  using assms
  by (auto simp: start_task_def start_steps_def ensure_worktree_def install_deps_def
      start_agent_def Let_def split: prod.splits outcome.splits)

lemma check_task_status_tasks:
  "tasks (snd (check_task_status env k s)) =
     (case tasks s k of
        None \<Rightarrow> tasks s
      | Some t \<Rightarrow>
          if status t = ustr ''running'' \<and> RUNNING_AGENTS s k \<noteq> None \<and> poll env \<noteq> None
          then (tasks s)(k \<mapsto> t\<lparr>status := ustr ''completed'',
                  completed_at := Some (now_status env)\<rparr>)
          else tasks s)"
  by (auto simp: check_task_status_def reconcile_def Let_def split: option.splits)

lemma stop_task_tasks:
  "tasks (snd (stop_task kill k s)) =
     (case tasks s k of
        None \<Rightarrow> tasks s
      | Some t \<Rightarrow>
          if RUNNING_AGENTS s k \<noteq> None \<and> kill = Returns ()
          then (tasks s)(k \<mapsto> t\<lparr>status := ustr ''failed'',
                  error := Some (ustr ''Stopped by user'')\<rparr>)
          else tasks s)"
  by (auto simp: stop_task_def Let_def split: option.splits outcome.splits)

lemma delete_task_tasks: "tasks (snd (delete_task kill k s)) = (tasks s)(k := None)"
proof (cases "tasks s k")
  case None
  then show ?thesis by (auto simp: delete_task_def dom_def)
next
  case (Some t)
  then show ?thesis
    by (auto simp: delete_task_def dom_def Let_def stop_task_tasks)
qed

lemma create_task_tasks:
  "tasks (snd (create_task db u d b s)) =
     (tasks s)(ustr ''task-'' @ take 8 u \<mapsto> fst (create_task db u d b s))"
  by (simp add: create_task_def Let_def)

section \<open>The order of the statuses\<close>

lemma rank_simps [simp]:
  "rank (ustr ''completed'') = 2" "rank (ustr ''failed'') = 2" "rank (ustr ''running'') = 1"
  "rank (ustr ''pending'') = 0"
  by (simp_all add: rank_def ustr_def)

lemma rank_le_2: "rank st \<le> 2"
  by (simp add: rank_def)

lemma rank_finished:
  "rank st = 2 \<longleftrightarrow> st = ustr ''completed'' \<or> st = ustr ''failed''"
  by (simp add: rank_def)

lemma step_absent:
  assumes "\<not> restarts task_id x s" and "tasks s task_id = None"
  shows "tasks (step db x s) task_id = None"
proof (cases x)
  case (Start env k)
  show ?thesis
  proof (cases "k = task_id")
    case True
    with Start assms(2) show ?thesis by (simp add: start_task_absent)
  next
    case False
    with Start assms(2) show ?thesis by (simp add: start_task_other)
  qed
qed (use assms in \<open>auto simp: create_task_tasks check_task_status_tasks stop_task_tasks
       delete_task_tasks split: option.splits\<close>)

lemma step_forward:
  assumes "\<not> restarts task_id x s" and "tasks s task_id = Some t"
    and "tasks (step db x s) task_id = Some t'"
  shows "rank (status t) \<le> rank (status t')"
proof (cases x)
  case (Start env k)
  show ?thesis
  proof (cases "k = task_id")
    case True
    with Start assms(1,2) have "status t \<noteq> ustr ''completed''" "status t \<noteq> ustr ''failed''"
      by (simp_all add: finished_def)
    then have low: "rank (status t) \<le> 1" by (simp add: rank_def)
    from start_task_status [OF assms(2), of env] Start True assms(3)
    have "status t' = ustr ''running'' \<or> status t' = ustr ''failed''"
      by (auto split: if_splits)
    then have "1 \<le> rank (status t')" by auto
    with low show ?thesis by simp
  next
    case False
    with Start assms(2,3) show ?thesis by (simp add: start_task_other)
  qed
qed (use assms in \<open>auto simp: create_task_tasks check_task_status_tasks stop_task_tasks
       delete_task_tasks rank_le_2 split: option.splits if_splits\<close>)

lemma run_absent:
  "no_restart db task_id ops s \<Longrightarrow> tasks s task_id = None \<Longrightarrow>
   tasks (run db ops s) task_id = None"
  by (induction ops arbitrary: s) (auto simp: step_absent)

lemma run_forward:
  "no_restart db task_id ops s \<Longrightarrow> tasks s task_id = Some t \<Longrightarrow>
   tasks (run db ops s) task_id = Some t' \<Longrightarrow> rank (status t) \<le> rank (status t')"
proof (induction ops arbitrary: s t)
  case Nil
  then show ?case by simp
next
  case (Cons x xs)
  from Cons.prems(1) have nx: "\<not> restarts task_id x s"
    and nxs: "no_restart db task_id xs (step db x s)"
    by simp_all
  show ?case
  proof (cases "tasks (step db x s) task_id")
    case None
    from run_absent [OF nxs None] Cons.prems(3) show ?thesis by simp
  next
    case (Some u)
    have "rank (status t) \<le> rank (status u)" by (rule step_forward [OF nx Cons.prems(2) Some])
    moreover have "rank (status u) \<le> rank (status t')"
      using Cons.IH [OF nxs Some] Cons.prems(3) by simp
    ultimately show ?thesis by simp
  qed
qed

text \<open>Once completed or failed, the task stays completed or failed.\<close>

lemma run_finished:
  assumes "no_restart db task_id ops s" and "tasks s task_id = Some t"
    and "tasks (run db ops s) task_id = Some t'"
    and "status t = ustr ''completed'' \<or> status t = ustr ''failed''"
  shows "status t' = ustr ''completed'' \<or> status t' = ustr ''failed''"
proof -
  from assms(4) have "rank (status t) = 2" by (simp add: rank_finished)
  with run_forward [OF assms(1-3)] rank_le_2 [of "status t'"] have "rank (status t') = 2"
    by simp
  then show ?thesis by (simp add: rank_finished)
qed

text \<open>
  C2, amended. In every sequence of operations in which the task is never started while
  its status is completed or failed, and no record is created under its identifier, the
  status of the task, as long as its record exists, only moves forward along pending,
  running, completed or failed (its \<open>rank\<close> never decreases; a first start, and a
  start of a task that is pending or running, are part of such a sequence): a completed
  or failed task does not return to pending or running. Deleting removes the record.
  \<^verbatim>\<open>start_task\<close> itself has no check of the status: on a stored task, whatever its
  status, it sets running when it succeeds and failed when it does not.
\<close>

theorem status_forward_without_restart:
  "(no_restart db task_id ops s \<and> tasks s task_id = Some t
      \<and> tasks (run db ops s) task_id = Some t' \<longrightarrow>
        rank (status t) \<le> rank (status t')
        \<and> (status t = ustr ''completed'' \<or> status t = ustr ''failed'' \<longrightarrow>
             status t' = ustr ''completed'' \<or> status t' = ustr ''failed''))
   \<and> (tasks s task_id = Some t \<longrightarrow>
        (\<exists>u. tasks (snd (start_task env task_id s)) task_id = Some u
           \<and> status u = (if fst (start_task env task_id s) then ustr ''running''
                         else ustr ''failed'')))"
  using run_forward [of db task_id ops s t t'] run_finished [of db task_id ops s t t']
    start_task_status [of s task_id t env]
  by blast

lemma run_to_stopped:
  "run db0 [Create uuid0 descr0 None, Start env_ok tid0, Stop (Returns ()) tid0] fresh =
     st_stopped"
  by (simp add: st_stopped_def st_running_def st_created_def)

lemma st_stopped_task:
  "tasks st_stopped tid0 =
     Some (task0_running\<lparr>status := ustr ''failed'', error := Some (ustr ''Stopped by user'')\<rparr>)"
  by (simp add: st_stopped_eq)

lemma start_again_after_stop: "fst (start_task env_again tid0 st_stopped) = True"
proof -
  have a: "AGENTS_CONFIG (agent_type (task0_running\<lparr>status := ustr ''failed'',
      error := Some (ustr ''Stopped by user'')\<rparr>)) =
     Some \<lparr>name = ustr ''Codex'', model = ustr ''gpt-5.3-codex'', priority = 90,
           command = ustr ''claude-code''\<rparr>"
    using AGENTS_CONFIG_task0_running by simp
  show ?thesis
    by (rule start_task_succeeds [OF st_stopped_task _ _ _ a, where p = "\<lparr>pid = 4343\<rparr>"])
       (simp_all add: env_again_def env_ok_def)
qed

lemma st_created_task: "tasks st_created tid0 = Some task0"
  by (simp add: st_created_eq)

lemma start_again0:
  "snd (start_task env_again tid0 st_running) =
     st_running\<lparr>
       tasks := [tid0 \<mapsto> task0_running\<lparr>started_at := Some (ustr ''2024-11-03T02:30:00'')\<rparr>],
       RUNNING_AGENTS := [tid0 \<mapsto> \<lparr>pid = 4343\<rparr>],
       tasks_file :=
         Some [tid0 \<mapsto> task0_running\<lparr>started_at := Some (ustr ''2024-11-03T02:30:00'')\<rparr>],
       calls := calls st_running @ [Write_prompt tid0, Popen wt0 tid0]\<rparr>"
  unfolding start_task_Some_returns [OF st_running_task start_steps_again0]
  by (simp add: save_tasks_def env_again_def env_ok_def task0_running_def st_running_eq)

theorem status_forward_without_restart_witness:
  "no_restart db0 tid0 [Start env_ok tid0, Start env_again tid0, Status env_exit tid0,
       Stop (Returns ()) tid0] st_created
   \<and> tasks st_created tid0 = Some task0
   \<and> status task0 = ustr ''pending''
   \<and> tasks (run db0 [Start env_ok tid0, Start env_again tid0, Status env_exit tid0,
        Stop (Returns ()) tid0] st_created) tid0 =
       Some (task0_running\<lparr>status := ustr ''completed'',
          started_at := Some (ustr ''2024-11-03T02:30:00''),
          completed_at := Some (ustr ''2024-11-03T02:10:00'')\<rparr>)
   \<and> rank (status task0) \<le> rank (ustr ''completed'')
   \<and> (\<exists>u. tasks (snd (start_task env_again tid0 st_running)) tid0 = Some u
        \<and> status u = ustr ''running'')"
proof -
  let ?ops = "[Start env_ok tid0, Start env_again tid0, Status env_exit tid0,
       Stop (Returns ()) tid0]"
  let ?t' = "task0_running\<lparr>status := ustr ''completed'',
          started_at := Some (ustr ''2024-11-03T02:30:00''),
          completed_at := Some (ustr ''2024-11-03T02:10:00'')\<rparr>"
  have p: "status task0 = ustr ''pending''" by (simp add: task0_def)
  have s1: "snd (start_task env_ok tid0 st_created) = st_running"
    by (simp add: st_running_def)
  have f1: "\<not> finished tid0 st_created"
    by (simp add: finished_def st_created_task p ustr_def)
  have f2: "\<not> finished tid0 st_running"
    by (simp add: finished_def st_running_task task0_running_def ustr_def)
  have l: "no_restart db0 tid0 ?ops st_created"
    by (simp add: s1 f1 f2)
  have r: "tasks (run db0 ?ops st_created) tid0 = Some ?t'"
    by (simp add: s1 start_again0 check_task_status_def reconcile_def stop_task_def Let_def
        AGENTS_CONFIG_task0_running env_exit_def save_tasks_def task0_running_def
        split: option.splits)
  have f: "fst (start_task env_again tid0 st_running) = True"
    by (simp add: start_task_Some_returns [OF st_running_task start_steps_again0])
  show ?thesis
    using status_forward_without_restart [of db0 tid0 ?ops st_created task0 ?t' env_again]
      status_forward_without_restart [of db0 tid0 ?ops st_running task0_running ?t' env_again]
      l r f p st_created_task st_running_task
    by simp
qed

text \<open>
  The claim as stated lets no task return to running after it has failed. A task that was
  created, started and stopped has status failed; started again, it is running.
\<close>

theorem restart_after_failed_counterexample:
  "(\<exists>t. tasks (run db0 [Create uuid0 descr0 None, Start env_ok tid0, Stop (Returns ()) tid0]
            fresh) tid0 = Some t \<and> status t = ustr ''failed'')
   \<and> (\<exists>t'. tasks (run db0 [Create uuid0 descr0 None, Start env_ok tid0, Stop (Returns ()) tid0,
                        Start env_again tid0] fresh) tid0 = Some t'
          \<and> status t' = ustr ''running'')"
proof -
  have a: "run db0 [Create uuid0 descr0 None, Start env_ok tid0, Stop (Returns ()) tid0,
                Start env_again tid0] fresh = snd (start_task env_again tid0 st_stopped)"
    by (simp add: st_stopped_def st_running_def st_created_def)
  from start_task_status [OF st_stopped_task, of env_again] start_again_after_stop
  have "\<exists>t'. tasks (snd (start_task env_again tid0 st_stopped)) tid0 = Some t'
          \<and> status t' = ustr ''running''"
    by simp
  then show ?thesis
    by (simp only: run_to_stopped a) (simp add: st_stopped_task)
qed

section \<open>The invariant of the live-process table, operation by operation\<close>











end
